theory Spec2Isabelle
  imports Complex_Main
begin

section \<open>The LazyLoad controller of lazyload.js\<close>

text \<open>
  The embedding follows the current revision of the class \<open>LazyLoad\<close> (the one with
  \<open>loadVideo\<close>, \<open>destroy\<close> and the \<open>srcTarget\<close>/\<open>attr\<close> parameters). The class keeps two
  private fields, \<open>#observer\<close> and \<open>#options\<close>; everything else it touches belongs to the
  host: the document, the elements' attributes and the IntersectionObserver instances.
  The host is modelled explicitly: a store of element data, a heap of observers, and the
  host's own functions (selector engine, attribute-name check, observer constructor).
  Every \<open>throw\<close> of the source and every exception the host raises on its behalf is a
  value of the type \<open>error\<close>; an operation returns the error, if any, together with the
  state as it is at that moment, because what was mutated before a throw stays mutated.
\<close>

subsection \<open>JavaScript values\<close>

type_synonym elem = nat

text \<open>
  A JavaScript number is a double: a finite value (read as the real number it denotes;
  the two zeros coincide, as they do under \<open>===\<close> and \<open><\<close>), an infinity or NaN.
\<close>

datatype jsnum = Fin real | PosInf | NegInf | NaN

text \<open>The relational operator \<open><\<close> on numbers: false as soon as one side is NaN.\<close>

fun js_less :: "jsnum \<Rightarrow> jsnum \<Rightarrow> bool" where
  "js_less NaN _ = False"
| "js_less _ NaN = False"
| "js_less (Fin a) (Fin b) = (a < b)"
| "js_less (Fin _) PosInf = True"
| "js_less (Fin _) NegInf = False"
| "js_less PosInf _ = False"
| "js_less NegInf NegInf = False"
| "js_less NegInf _ = True"

text \<open>Errors: one constructor per \<open>throw\<close> of the source, then the host's exceptions.\<close>

datatype error =
    RootError          \<comment> \<open>"root" must be a valid DOM element!\<close>
  | LoadBeforeError    \<comment> \<open>"loadBefore" must be a positive number!\<close>
  | LoadAfterError     \<comment> \<open>"loadAfter" must be a number between 0 and 1!\<close>
  | SelectorRequired   \<comment> \<open>"selector" is required and must be a valid CSS selector\<close>
  | SrcTargetError     \<comment> \<open>"srcTarget" is must be a valid CSS selector or null\<close>
  | AttrError          \<comment> \<open>"attr" is must be a string or null\<close>
  | ImagePathError     \<comment> \<open>Image path must be a string\<close>
  | ImagesNotArray     \<comment> \<open>"images" must be an array of string!\<close>
  | VideoPathError     \<comment> \<open>Video path must be a string\<close>
  | VideosNotArray     \<comment> \<open>"videos" must be an array of string!\<close>
  | ExeFnError         \<comment> \<open>"exeFn" must be a function\<close>
  | NullDereference    \<comment> \<open>the engine's TypeError on a property read of undefined or null\<close>
  | DomSyntaxError     \<comment> \<open>DOMException SyntaxError: querySelector on a string that is no selector\<close>
  | DomInvalidCharacter \<comment> \<open>DOMException InvalidCharacterError: setAttribute with a bad name\<close>
  | NotAnElement       \<comment> \<open>the host's TypeError: observe on a value that is no Element\<close>
  | HostError nat      \<comment> \<open>anything else the host or a user callback throws\<close>

text \<open>The error classes of the specification.\<close>

datatype error_class = ConfigError | SelectorError | TypeError | NullDerefClass | HostClass

fun error_class_of :: "error \<Rightarrow> error_class" where
  "error_class_of RootError = ConfigError"
| "error_class_of LoadBeforeError = ConfigError"
| "error_class_of LoadAfterError = ConfigError"
| "error_class_of SelectorRequired = SelectorError"
| "error_class_of SrcTargetError = SelectorError"
| "error_class_of AttrError = TypeError"
| "error_class_of ImagePathError = TypeError"
| "error_class_of ImagesNotArray = TypeError"
| "error_class_of VideoPathError = TypeError"
| "error_class_of VideosNotArray = TypeError"
| "error_class_of ExeFnError = TypeError"
| "error_class_of NullDereference = NullDerefClass"
| "error_class_of DomSyntaxError = HostClass"
| "error_class_of DomInvalidCharacter = HostClass"
| "error_class_of NotAnElement = HostClass"
| "error_class_of (HostError _) = HostClass"

text \<open>
  Argument values. A function value carries its behaviour on the caller's own state
  \<open>'w\<close>: it returns the state it leaves behind and the exception it threw, if any.
\<close>

datatype 'w jsval =
    JUndefined
  | JNull
  | JBool bool
  | JNum jsnum
  | JStr string
  | JArr "'w jsval list"
  | JFun "'w \<Rightarrow> error option \<times> 'w"
  | JElem elem
  | JObj

fun typeof :: "'w jsval \<Rightarrow> string" where
  "typeof JUndefined = ''undefined''"
| "typeof JNull = ''object''"
| "typeof (JBool _) = ''boolean''"
| "typeof (JNum _) = ''number''"
| "typeof (JStr _) = ''string''"
| "typeof (JArr _) = ''object''"
| "typeof (JFun _) = ''function''"
| "typeof (JElem _) = ''object''"
| "typeof JObj = ''object''"

text \<open>
  A destructured parameter \<open>{ name = d }\<close> takes its default exactly when the property is
  undefined, which is also what an omitted property reads as.
\<close>

fun dflt :: "'w jsval \<Rightarrow> 'w jsval \<Rightarrow> 'w jsval" where
  "dflt d JUndefined = d"
| "dflt d v = v"

subsection \<open>The host: element data, observers, selector engine\<close>

text \<open>
  Element data the code reads or writes: the attributes (the \<open>dataset\<close> entries
  \<open>imageUrl\<close> and \<open>videoUrl\<close> are the attributes \<open>data-image-url\<close> and \<open>data-video-url\<close>) and
  the \<open>src\<close> property.
\<close>

record dom_store =
  attrs :: "elem \<Rightarrow> string \<Rightarrow> string option"
  src :: "elem \<Rightarrow> string option"

definition imageUrl :: string where
  "imageUrl = ''data-image-url''"

definition videoUrl :: string where
  "videoUrl = ''data-video-url''"

definition set_attr :: "elem \<Rightarrow> string \<Rightarrow> string \<Rightarrow> dom_store \<Rightarrow> dom_store" where
  "set_attr e k v d = d\<lparr>attrs := (attrs d)(e := (attrs d e)(k \<mapsto> v))\<rparr>"

definition set_src :: "elem \<Rightarrow> string \<Rightarrow> dom_store \<Rightarrow> dom_store" where
  "set_src e v d = d\<lparr>src := (src d)(e \<mapsto> v)\<rparr>"

text \<open>
  The observer options built by \<open>config\<close>. The margin is the template literal
  \<open>`${loadBefore}px`\<close>, kept with the value it interpolates: \<open>Px (JNum (Fin 0))\<close> is the
  string "0px".
\<close>

datatype 'w margin = Px "'w jsval"

record 'w observer_options =
  root :: "'w jsval"
  rootMargin :: "'w margin"
  threshold :: "'w jsval"

text \<open>
  The three callbacks the class hands to an observer, with what each closure captures.
  \<open>loadImage\<close> and \<open>loadVideo\<close> only let null or a string through for \<open>srcTarget\<close> and
  \<open>attr\<close>, hence the option types.
\<close>

datatype 'w callback =
    RenderImage "string option" "string option"
  | RenderVideo "string option" "string option"
  | HandleFunctionExecution "'w \<Rightarrow> error option \<times> 'w"

record 'w intersection_observer =
  callback :: "'w callback"
  init :: "'w observer_options option"
  targets :: "elem list"

record entry =
  target :: elem
  isIntersecting :: bool

text \<open>
  What the host decides. \<open>selectorValid\<close> is the selector parser (\<open>querySelector\<close> and
  \<open>querySelectorAll\<close> throw a SyntaxError on a string it rejects); \<open>matchAll\<close> lists the
  matches in document order and \<open>matchWithin\<close> gives the first match among an element's
  descendants, both for the element data as it is when asked; \<open>attrNameValid\<close> is the
  name check of \<open>setAttribute\<close> and \<open>storedName\<close> gives the name under which
  \<open>setAttribute\<close> stores an attribute on an element (the given name in ASCII lower
  case for an HTML element of an HTML document, the given name itself otherwise);
  \<open>observerInit\<close> is the validation the observer's constructor performs on its
  options.
\<close>

record 'w host =
  selectorValid :: "string \<Rightarrow> bool"
  matchAll :: "dom_store \<Rightarrow> string \<Rightarrow> elem list"
  matchWithin :: "dom_store \<Rightarrow> elem \<Rightarrow> string \<Rightarrow> elem option"
  attrNameValid :: "string \<Rightarrow> bool"
  storedName :: "elem \<Rightarrow> string \<Rightarrow> string"
  observerInit :: "'w observer_options option \<Rightarrow> error option"

text \<open>
  The whole state: the two private fields, the observers created so far (an observer is
  referred to by its position), the element data and the caller's own state.
\<close>

record 'w state =
  observer :: "nat option"
  options :: "'w observer_options option"
  heap :: "'w intersection_observer list"
  dom :: dom_store
  user :: "'w"

type_synonym 'w outcome = "error option \<times> 'w state"

definition querySelectorAll :: "'w host \<Rightarrow> dom_store \<Rightarrow> string \<Rightarrow> error + elem list" where
  "querySelectorAll H d s = (if selectorValid H s then Inr (matchAll H d s) else Inl DomSyntaxError)"

definition querySelector :: "'w host \<Rightarrow> dom_store \<Rightarrow> string \<Rightarrow> error + elem option" where
  "querySelector H d s =
     (if selectorValid H s
      then Inr (case matchAll H d s of [] \<Rightarrow> None | e # _ \<Rightarrow> Some e)
      else Inl DomSyntaxError)"

definition elemQuerySelector :: "'w host \<Rightarrow> dom_store \<Rightarrow> elem \<Rightarrow> string \<Rightarrow> error + elem option" where
  "elemQuerySelector H d e s =
     (if selectorValid H s then Inr (matchWithin H d e s) else Inl DomSyntaxError)"

definition setAttribute :: "'w host \<Rightarrow> elem \<Rightarrow> string \<Rightarrow> string \<Rightarrow> dom_store \<Rightarrow> error + dom_store" where
  "setAttribute H e k v d =
     (if attrNameValid H k then Inr (set_attr e (storedName H e k) v d) else Inl DomInvalidCharacter)"

text \<open>The observer's methods, on the heap of observers.\<close>

definition observe :: "nat \<Rightarrow> elem \<Rightarrow> 'w intersection_observer list \<Rightarrow> 'w intersection_observer list" where
  "observe i e h =
     (if i < length h \<and> e \<notin> set (targets (h ! i))
      then h[i := (h ! i)\<lparr>targets := targets (h ! i) @ [e]\<rparr>] else h)"

definition unobserve :: "nat \<Rightarrow> elem \<Rightarrow> 'w intersection_observer list \<Rightarrow> 'w intersection_observer list" where
  "unobserve i e h =
     (if i < length h then h[i := (h ! i)\<lparr>targets := removeAll e (targets (h ! i))\<rparr>] else h)"

definition disconnect :: "nat \<Rightarrow> 'w intersection_observer list \<Rightarrow> 'w intersection_observer list" where
  "disconnect i h = (if i < length h then h[i := (h ! i)\<lparr>targets := []\<rparr>] else h)"

text \<open>
  \<open>this.#observer = new IntersectionObserver(cb, this.#options)\<close>: the constructor may
  reject the options, and then the field keeps its old value.
\<close>

definition newObserver :: "'w host \<Rightarrow> 'w callback \<Rightarrow> 'w state \<Rightarrow> 'w outcome" where
  "newObserver H cb st =
     (case observerInit H (options st) of
        Some err \<Rightarrow> (Some err, st)
      | None \<Rightarrow>
          (None, st\<lparr>observer := Some (length (heap st)),
                    heap := heap st @ [\<lparr>callback = cb, init = options st, targets = []\<rparr>]\<rparr>))"

subsection \<open>config, the constructor and destroy\<close>

definition checkValidDOMElement :: "'w jsval \<Rightarrow> bool" where
  "checkValidDOMElement element = (case element of JElem _ \<Rightarrow> True | _ \<Rightarrow> False)"

text \<open>
  \<open>config({ root = null, loadBefore = 0, loadAfter = 0 } = {})\<close>. Of the tests
  \<open>x === null || x === undefined || typeof x !== 'number' || x < 0\<close> the first three say
  that \<open>x\<close> is not a number value; the comparisons are reached for numbers only.
\<close>

definition config :: "'w jsval \<Rightarrow> 'w jsval \<Rightarrow> 'w jsval \<Rightarrow> 'w state \<Rightarrow> 'w outcome" where
  "config root0 loadBefore0 loadAfter0 st =
     (let root = dflt JNull root0;
          loadBefore = dflt (JNum (Fin 0)) loadBefore0;
          loadAfter = dflt (JNum (Fin 0)) loadAfter0
      in if root \<noteq> JNull \<and> \<not> checkValidDOMElement root then (Some RootError, st)
         else if (case loadBefore of JNum b \<Rightarrow> js_less b (Fin 0) | _ \<Rightarrow> True)
           then (Some LoadBeforeError, st)
         else if (case loadAfter of JNum a \<Rightarrow> js_less a (Fin 0) \<or> js_less (Fin 1) a | _ \<Rightarrow> True)
           then (Some LoadAfterError, st)
         else (None, st\<lparr>options :=
                 Some \<lparr>root = root, rootMargin = Px loadBefore, threshold = loadAfter\<rparr>\<rparr>))"

text \<open>The field initialisers and \<open>constructor() { this.config(); }\<close>.\<close>

definition blank :: "dom_store \<Rightarrow> 'w \<Rightarrow> 'w intersection_observer list \<Rightarrow> 'w state" where
  "blank d w h = \<lparr>observer = None, options = None, heap = h, dom = d, user = w\<rparr>"

definition constructor :: "dom_store \<Rightarrow> 'w \<Rightarrow> 'w intersection_observer list \<Rightarrow> 'w outcome" where
  "constructor d w h = config JUndefined JUndefined JUndefined (blank d w h)"

definition defaults :: "'w observer_options" where
  "defaults = \<lparr>root = JNull, rootMargin = Px (JNum (Fin 0)), threshold = JNum (Fin 0)\<rparr>"

text \<open>
  \<open>destroy() { this.config(); this.#observer.disconnect(); }\<close>: reading \<open>disconnect\<close> off a
  null \<open>#observer\<close> throws, after \<open>config\<close> has run.
\<close>

definition destroy :: "'w state \<Rightarrow> 'w outcome" where
  "destroy st =
     (case config JUndefined JUndefined JUndefined st of
        (Some err, st1) \<Rightarrow> (Some err, st1)
      | (None, st1) \<Rightarrow>
          (case observer st1 of
             None \<Rightarrow> (Some NullDereference, st1)
           | Some i \<Rightarrow> (None, st1\<lparr>heap := disconnect i (heap st1)\<rparr>)))"

subsection \<open>Selector check and sequencing\<close>

text \<open>
  \<open>#checkValidCSSSelector\<close>: \<open>document.querySelector(selector) || null\<close>, then true iff
  that is an element. The exception of \<open>querySelector\<close> is not caught.
\<close>

definition checkValidCSSSelector :: "'w host \<Rightarrow> dom_store \<Rightarrow> string \<Rightarrow> error + bool" where
  "checkValidCSSSelector H d selector =
     (case querySelector H d selector of
        Inl err \<Rightarrow> Inl err
      | Inr None \<Rightarrow> Inr False
      | Inr (Some _) \<Rightarrow> Inr True)"

text \<open>Statement sequencing: the second statement runs only if the first did not throw.\<close>

definition andThen :: "'w outcome \<Rightarrow> ('w state \<Rightarrow> 'w outcome) \<Rightarrow> 'w outcome" where
  "andThen r f = (case r of (None, st) \<Rightarrow> f st | (Some err, st) \<Rightarrow> (Some err, st))"

fun forEach :: "('a \<Rightarrow> 's \<Rightarrow> error option \<times> 's) \<Rightarrow> 'a list \<Rightarrow> 's \<Rightarrow> error option \<times> 's" where
  "forEach f [] s = (None, s)"
| "forEach f (x # xs) s =
     (case f x s of (Some err, s1) \<Rightarrow> (Some err, s1) | (None, s1) \<Rightarrow> forEach f xs s1)"

text \<open>
  \<open>if(root !== null || loadBefore !== 0 || loadAfter !== 0) this.config({root, loadBefore,
  loadAfter})\<close>, shared by the three batch operations.
\<close>

definition reconfigure :: "'w jsval \<Rightarrow> 'w jsval \<Rightarrow> 'w jsval \<Rightarrow> 'w state \<Rightarrow> 'w outcome" where
  "reconfigure root1 loadBefore loadAfter st =
     (if root1 \<noteq> JNull \<or> loadBefore \<noteq> JNum (Fin 0) \<or> loadAfter \<noteq> JNum (Fin 0)
      then config root1 loadBefore loadAfter st else (None, st))"

text \<open>\<open>elements.forEach(elem => { this.#observer.observe(elem); })\<close>\<close>

definition observeEach :: "elem list \<Rightarrow> 'w state \<Rightarrow> 'w outcome" where
  "observeEach elements st =
     forEach (\<lambda>elem s. case observer s of
                          None \<Rightarrow> (Some NullDereference, s)
                        | Some i \<Rightarrow> (None, s\<lparr>heap := observe i elem (heap s)\<rparr>))
             elements st"

text \<open>
  \<open>x || null\<close> for a string that may be absent: the empty string counts as absent. The
  same function gives the truth value of a null-or-string in a condition.
\<close>

definition orNull :: "string option \<Rightarrow> string option" where
  "orNull v = (case v of None \<Rightarrow> None | Some p \<Rightarrow> if p = [] then None else Some p)"

text \<open>\<open>attr ? x.setAttribute(attr, path) : x.src = path\<close>\<close>

definition writePath :: "'w host \<Rightarrow> string option \<Rightarrow> elem \<Rightarrow> string \<Rightarrow> dom_store \<Rightarrow> error + dom_store" where
  "writePath H attr x path d =
     (case orNull attr of
        Some a \<Rightarrow> setAttribute H x a path d
      | None \<Rightarrow> Inr (set_src x path d))"

text \<open>
  The two argument tests \<open>loadImage\<close> and \<open>loadVideo\<close> have in common, with the value the
  callback's closure will hold:
  \<open>if (srcTarget !== null) { if (typeof srcTarget !== "string" ||
  this.#checkValidCSSSelector(srcTarget) === false) throw ... }\<close> and
  \<open>if (attr !== null) { if (attr === undefined || typeof attr !== 'string') throw ... }\<close>.
\<close>

definition checkSrcTarget :: "'w host \<Rightarrow> dom_store \<Rightarrow> 'w jsval \<Rightarrow> error + string option" where
  "checkSrcTarget H d srcTarget =
     (case srcTarget of
        JNull \<Rightarrow> Inr None
      | JStr t \<Rightarrow>
          (case checkValidCSSSelector H d t of
             Inl err \<Rightarrow> Inl err
           | Inr False \<Rightarrow> Inl SrcTargetError
           | Inr True \<Rightarrow> Inr (Some t))
      | _ \<Rightarrow> Inl SrcTargetError)"

definition checkAttr :: "'w jsval \<Rightarrow> error + string option" where
  "checkAttr attr = (case attr of JNull \<Rightarrow> Inr None | JStr a \<Rightarrow> Inr (Some a) | _ \<Rightarrow> Inl AttrError)"

text \<open>
  The block both reveal callbacks run when a path is present:
  \<open>if (srcTarget) { let srcElem = elem.querySelector(srcTarget); attr ?
  srcElem.setAttribute(attr, path) : srcElem.src = path } else attr ?
  elem.setAttribute(attr, path) : elem.src = path;\<close>.
  With no match inside the element \<open>srcElem\<close> is null and the write throws.
\<close>

definition writeSource ::
  "'w host \<Rightarrow> string option \<Rightarrow> string option \<Rightarrow> elem \<Rightarrow> string \<Rightarrow> dom_store \<Rightarrow> error + dom_store" where
  "writeSource H srcTarget attr elem path d =
     (case orNull srcTarget of
        Some t \<Rightarrow>
          (case elemQuerySelector H d elem t of
             Inl err \<Rightarrow> Inl err
           | Inr None \<Rightarrow> Inl NullDereference
           | Inr (Some srcElem) \<Rightarrow> writePath H attr srcElem path d)
      | None \<Rightarrow> writePath H attr elem path d)"

subsection \<open>loadImage and its callback\<close>

text \<open>
  The payload loop of \<open>loadImage\<close>:
  \<open>for (let i = 0; i < images.length; i++) { if (typeof images[i] !== 'string') throw ...;
  else elements[i].dataset.imageUrl = images[i]; }\<close>.
  Past the end of the NodeList \<open>elements[i]\<close> is undefined and reading \<open>dataset\<close> off it
  throws.
\<close>

function loadImage_loop :: "elem list \<Rightarrow> 'w jsval list \<Rightarrow> nat \<Rightarrow> dom_store \<Rightarrow> error option \<times> dom_store" where
  "loadImage_loop elements images i d =
     (if i < length images then
        (case images ! i of
           JStr p \<Rightarrow>
             (if i < length elements
              then loadImage_loop elements images (Suc i) (set_attr (elements ! i) imageUrl p d)
              else (Some NullDereference, d))
         | _ \<Rightarrow> (Some ImagePathError, d))
      else (None, d))"
  by pat_completeness auto
termination
  by (relation "measure (\<lambda>(elements, images, i, d). length images - i)") auto

declare loadImage_loop.simps [simp del]

text \<open>
  The second half of \<open>loadImage\<close>, from \<open>const elements = document.querySelectorAll(selector)\<close>
  on: the array test, the payload loop and the subscription of every element.
\<close>

definition loadImage_payloads :: "'w host \<Rightarrow> string \<Rightarrow> 'w jsval \<Rightarrow> 'w state \<Rightarrow> 'w outcome" where
  "loadImage_payloads H sel images st2 =
     (case querySelectorAll H (dom st2) sel of
        Inl err \<Rightarrow> (Some err, st2)
      | Inr elements \<Rightarrow>
          (case images of
             JArr imgs \<Rightarrow>
               (case (if imgs \<noteq> [] then loadImage_loop elements imgs 0 (dom st2)
                      else (None, dom st2)) of
                  (Some err, d) \<Rightarrow> (Some err, st2\<lparr>dom := d\<rparr>)
                | (None, d) \<Rightarrow> observeEach elements (st2\<lparr>dom := d\<rparr>))
           | _ \<Rightarrow> (Some ImagesNotArray, st2)))"

definition loadImage ::
  "'w host \<Rightarrow> 'w jsval \<Rightarrow> 'w jsval \<Rightarrow> 'w jsval \<Rightarrow> 'w jsval \<Rightarrow> 'w jsval \<Rightarrow> 'w jsval \<Rightarrow> 'w jsval
     \<Rightarrow> 'w state \<Rightarrow> 'w outcome" where
  "loadImage H selector0 srcTarget0 attr0 images0 root0 loadBefore0 loadAfter0 st =
     (let selector = dflt JNull selector0;
          srcTarget = dflt JNull srcTarget0;
          attr = dflt JNull attr0;
          images = dflt (JArr []) images0;
          root = dflt JNull root0;
          loadBefore = dflt (JNum (Fin 0)) loadBefore0;
          loadAfter = dflt (JNum (Fin 0)) loadAfter0
      in case selector of
        JStr sel \<Rightarrow>
          (case checkValidCSSSelector H (dom st) sel of
             Inl err \<Rightarrow> (Some err, st)
           | Inr False \<Rightarrow> (Some SelectorRequired, st)
           | Inr True \<Rightarrow>
          (case checkSrcTarget H (dom st) srcTarget of
             Inl err \<Rightarrow> (Some err, st)
           | Inr tgt \<Rightarrow>
          (case checkAttr attr of
             Inl err \<Rightarrow> (Some err, st)
           | Inr att \<Rightarrow>
          andThen (reconfigure root loadBefore loadAfter st) (\<lambda>st1.
          andThen (newObserver H (RenderImage tgt att) st1)
                  (loadImage_payloads H sel images)))))
      | _ \<Rightarrow> (Some SelectorRequired, st))"

text \<open>
  The body of the callback returned by \<open>#renderImage(srcTarget, attr)\<close> for one entry;
  \<open>obs\<close> is the observer the host passes as second argument.
\<close>

definition renderImage_entry ::
  "'w host \<Rightarrow> string option \<Rightarrow> string option \<Rightarrow> nat \<Rightarrow> entry \<Rightarrow> 'w state \<Rightarrow> 'w outcome" where
  "renderImage_entry H srcTarget attr obs entry st =
     (if isIntersecting entry then
        (let elem = target entry;
             path = orNull (attrs (dom st) elem imageUrl)
         in case (case path of
                    None \<Rightarrow> Inr (dom st)
                  | Some p \<Rightarrow> writeSource H srcTarget attr elem p (dom st)) of
              Inl err \<Rightarrow> (Some err, st)
            | Inr d \<Rightarrow> (None, st\<lparr>dom := d, heap := unobserve obs elem (heap st)\<rparr>))
      else (None, st))"

definition renderImage ::
  "'w host \<Rightarrow> string option \<Rightarrow> string option \<Rightarrow> entry list \<Rightarrow> nat \<Rightarrow> 'w state \<Rightarrow> 'w outcome" where
  "renderImage H srcTarget attr entries obs st =
     forEach (renderImage_entry H srcTarget attr obs) entries st"

subsection \<open>loadVideo and its callback\<close>

function loadVideo_loop :: "elem list \<Rightarrow> 'w jsval list \<Rightarrow> nat \<Rightarrow> dom_store \<Rightarrow> error option \<times> dom_store" where
  "loadVideo_loop elements videos i d =
     (if i < length videos then
        (case videos ! i of
           JStr p \<Rightarrow>
             (if i < length elements
              then loadVideo_loop elements videos (Suc i) (set_attr (elements ! i) videoUrl p d)
              else (Some NullDereference, d))
         | _ \<Rightarrow> (Some VideoPathError, d))
      else (None, d))"
  by pat_completeness auto
termination
  by (relation "measure (\<lambda>(elements, videos, i, d). length videos - i)") auto

declare loadVideo_loop.simps [simp del]

text \<open>
  The second half of \<open>loadVideo\<close>, from \<open>const elements = document.querySelectorAll(selector)\<close>
  on: the array test, the payload loop and the subscription of every element.
\<close>

definition loadVideo_payloads :: "'w host \<Rightarrow> string \<Rightarrow> 'w jsval \<Rightarrow> 'w state \<Rightarrow> 'w outcome" where
  "loadVideo_payloads H sel videos st2 =
     (case querySelectorAll H (dom st2) sel of
        Inl err \<Rightarrow> (Some err, st2)
      | Inr elements \<Rightarrow>
          (case videos of
             JArr vids \<Rightarrow>
               (case (if vids \<noteq> [] then loadVideo_loop elements vids 0 (dom st2)
                      else (None, dom st2)) of
                  (Some err, d) \<Rightarrow> (Some err, st2\<lparr>dom := d\<rparr>)
                | (None, d) \<Rightarrow> observeEach elements (st2\<lparr>dom := d\<rparr>))
           | _ \<Rightarrow> (Some VideosNotArray, st2)))"

definition loadVideo ::
  "'w host \<Rightarrow> 'w jsval \<Rightarrow> 'w jsval \<Rightarrow> 'w jsval \<Rightarrow> 'w jsval \<Rightarrow> 'w jsval \<Rightarrow> 'w jsval \<Rightarrow> 'w jsval
     \<Rightarrow> 'w state \<Rightarrow> 'w outcome" where
  "loadVideo H selector0 srcTarget0 attr0 videos0 root0 loadBefore0 loadAfter0 st =
     (let selector = dflt JNull selector0;
          srcTarget = dflt JNull srcTarget0;
          attr = dflt JNull attr0;
          videos = dflt (JArr []) videos0;
          root = dflt JNull root0;
          loadBefore = dflt (JNum (Fin 0)) loadBefore0;
          loadAfter = dflt (JNum (Fin 0)) loadAfter0
      in case selector of
        JStr sel \<Rightarrow>
          (case checkValidCSSSelector H (dom st) sel of
             Inl err \<Rightarrow> (Some err, st)
           | Inr False \<Rightarrow> (Some SelectorRequired, st)
           | Inr True \<Rightarrow>
          (case checkSrcTarget H (dom st) srcTarget of
             Inl err \<Rightarrow> (Some err, st)
           | Inr tgt \<Rightarrow>
          (case checkAttr attr of
             Inl err \<Rightarrow> (Some err, st)
           | Inr att \<Rightarrow>
          andThen (reconfigure root loadBefore loadAfter st) (\<lambda>st1.
          andThen (newObserver H (RenderVideo tgt att) st1)
                  (loadVideo_payloads H sel videos)))))
      | _ \<Rightarrow> (Some SelectorRequired, st))"

definition renderVideo_entry ::
  "'w host \<Rightarrow> string option \<Rightarrow> string option \<Rightarrow> nat \<Rightarrow> entry \<Rightarrow> 'w state \<Rightarrow> 'w outcome" where
  "renderVideo_entry H srcTarget attr obs entry st =
     (if isIntersecting entry then
        (let elem = target entry;
             path = orNull (attrs (dom st) elem videoUrl)
         in case (case path of
                    None \<Rightarrow> Inr (dom st)
                  | Some p \<Rightarrow> writeSource H srcTarget attr elem p (dom st)) of
              Inl err \<Rightarrow> (Some err, st)
            | Inr d \<Rightarrow> (None, st\<lparr>dom := d, heap := unobserve obs elem (heap st)\<rparr>))
      else (None, st))"

definition renderVideo ::
  "'w host \<Rightarrow> string option \<Rightarrow> string option \<Rightarrow> entry list \<Rightarrow> nat \<Rightarrow> 'w state \<Rightarrow> 'w outcome" where
  "renderVideo H srcTarget attr entries obs st =
     forEach (renderVideo_entry H srcTarget attr obs) entries st"

subsection \<open>executeFn and its callback\<close>

definition executeFn ::
  "'w host \<Rightarrow> 'w jsval \<Rightarrow> 'w jsval \<Rightarrow> 'w jsval \<Rightarrow> 'w jsval \<Rightarrow> 'w jsval \<Rightarrow> 'w state \<Rightarrow> 'w outcome" where
  "executeFn H selector0 exeFn0 root0 loadBefore0 loadAfter0 st =
     (let selector = dflt JNull selector0;
          exeFn = dflt JNull exeFn0;
          root = dflt JNull root0;
          loadBefore = dflt (JNum (Fin 0)) loadBefore0;
          loadAfter = dflt (JNum (Fin 0)) loadAfter0
      in case selector of
        JStr sel \<Rightarrow>
          (case checkValidCSSSelector H (dom st) sel of
             Inl err \<Rightarrow> (Some err, st)
           | Inr False \<Rightarrow> (Some SelectorRequired, st)
           | Inr True \<Rightarrow>
          (case exeFn of
             JFun f \<Rightarrow>
               andThen (reconfigure root loadBefore loadAfter st) (\<lambda>st1.
               andThen (newObserver H (HandleFunctionExecution f) st1) (\<lambda>st2.
               (case querySelector H (dom st2) sel of
                  Inl err \<Rightarrow> (Some err, st2)
                | Inr None \<Rightarrow> (Some NotAnElement, st2)
                | Inr (Some element) \<Rightarrow>
                    (case observer st2 of
                       None \<Rightarrow> (Some NullDereference, st2)
                     | Some i \<Rightarrow> (None, st2\<lparr>heap := observe i element (heap st2)\<rparr>)))))
           | _ \<Rightarrow> (Some ExeFnError, st)))
      | _ \<Rightarrow> (Some SelectorRequired, st))"

text \<open>
  The callback returned by \<open>#handleFunctionExecution(exeFn)\<close>: \<open>exeFn()\<close>, then
  \<open>observer.unobserve(entry.target)\<close>. An exception of \<open>exeFn\<close> leaves the loop.
\<close>

definition handleFunctionExecution_entry ::
  "('w \<Rightarrow> error option \<times> 'w) \<Rightarrow> nat \<Rightarrow> entry \<Rightarrow> 'w state \<Rightarrow> 'w outcome" where
  "handleFunctionExecution_entry exeFn obs entry st =
     (if isIntersecting entry then
        (case exeFn (user st) of
           (Some err, w) \<Rightarrow> (Some err, st\<lparr>user := w\<rparr>)
         | (None, w) \<Rightarrow> (None, st\<lparr>user := w, heap := unobserve obs (target entry) (heap st)\<rparr>))
      else (None, st))"

definition handleFunctionExecution ::
  "('w \<Rightarrow> error option \<times> 'w) \<Rightarrow> entry list \<Rightarrow> nat \<Rightarrow> 'w state \<Rightarrow> 'w outcome" where
  "handleFunctionExecution exeFn entries obs st =
     forEach (handleFunctionExecution_entry exeFn obs) entries st"

subsection \<open>The host delivering visibility entries\<close>

fun invoke :: "'w host \<Rightarrow> 'w callback \<Rightarrow> entry list \<Rightarrow> nat \<Rightarrow> 'w state \<Rightarrow> 'w outcome" where
  "invoke H (RenderImage srcTarget attr) entries obs st = renderImage H srcTarget attr entries obs st"
| "invoke H (RenderVideo srcTarget attr) entries obs st = renderVideo H srcTarget attr entries obs st"
| "invoke H (HandleFunctionExecution exeFn) entries obs st = handleFunctionExecution exeFn entries obs st"

text \<open>
  One delivery by the host to observer \<open>obs\<close>. An observer reports on its observation
  targets only: of the visibility changes that occurred, those whose target the observer
  tracks are handed to its callback, in order; with none left the callback is not called.
\<close>

definition notify :: "'w host \<Rightarrow> nat \<Rightarrow> entry list \<Rightarrow> 'w state \<Rightarrow> 'w outcome" where
  "notify H obs changes st =
     (if obs < length (heap st) then
        (let entries = filter (\<lambda>c. target c \<in> set (targets (heap st ! obs))) changes
         in if entries = [] then (None, st)
            else invoke H (callback (heap st ! obs)) entries obs st)
      else (None, st))"

subsection \<open>The payload loops in closed form\<close>

text \<open>
  Two functions to state what the payload loops compute: the strings at the front of the
  array, up to its first entry that is not a string, and the store after assigning a
  list of paths to a list of elements pairwise under an attribute.
\<close>

fun stringPrefix :: "'w jsval list \<Rightarrow> string list" where
  "stringPrefix (JStr p # vs) = p # stringPrefix vs"
| "stringPrefix _ = []"

definition assignAll :: "string \<Rightarrow> elem list \<Rightarrow> string list \<Rightarrow> dom_store \<Rightarrow> dom_store" where
  "assignAll k es ps d = fold (\<lambda>(e, p). set_attr e k p) (zip es ps) d"

subsection \<open>The steps before the payload loop\<close>

text \<open>
  \<open>captures v c\<close>: the argument \<open>v\<close> passes the null-or-string test of \<open>loadImage\<close> and
  \<open>loadVideo\<close> and the callback's closure holds \<open>c\<close> (an undefined argument takes the
  default null).
\<close>

definition captures :: "'w jsval \<Rightarrow> string option \<Rightarrow> bool" where
  "captures v c = (case c of None \<Rightarrow> v = JUndefined \<or> v = JNull | Some s \<Rightarrow> v = JStr s)"

text \<open>
  \<open>setupPasses\<close>: every statement of \<open>loadImage\<close> (or \<open>loadVideo\<close>) before the payload loop
  runs without throwing. The selector is a string that matches an element, \<open>srcTarget\<close>
  is null or a string that matches an element, \<open>attr\<close> is null or a string, the optional
  reconfiguration succeeds and leaves the state \<open>st1\<close>, and the observer's constructor
  accepts the options.
\<close>

definition setupPasses ::
  "'w host \<Rightarrow> string \<Rightarrow> 'w jsval \<Rightarrow> string option \<Rightarrow> 'w jsval \<Rightarrow> string option
     \<Rightarrow> 'w jsval \<Rightarrow> 'w jsval \<Rightarrow> 'w jsval \<Rightarrow> 'w state \<Rightarrow> 'w state \<Rightarrow> bool" where
  "setupPasses H sel srcTarget tgt attr att r b a st st1 \<longleftrightarrow>
     checkValidCSSSelector H (dom st) sel = Inr True
     \<and> captures srcTarget tgt
     \<and> (case tgt of None \<Rightarrow> True | Some t \<Rightarrow> checkValidCSSSelector H (dom st) t = Inr True)
     \<and> captures attr att
     \<and> reconfigure (dflt JNull r) (dflt (JNum (Fin 0)) b) (dflt (JNum (Fin 0)) a) st = (None, st1)
     \<and> observerInit H (options st1) = None"

text \<open>The state right after \<open>this.#observer = new IntersectionObserver(cb, this.#options)\<close>.\<close>

definition armed :: "'w callback \<Rightarrow> 'w state \<Rightarrow> 'w state" where
  "armed cb st =
     st\<lparr>observer := Some (length (heap st)),
        heap := heap st @ [\<lparr>callback = cb, init = options st, targets = []\<rparr>]\<rparr>"

subsection \<open>Runs of the system\<close>

text \<open>
  What can happen to a controller and its page, one action at a time: a call of a public
  method, a delivery by the host to one of the observers, or some other script editing
  element data. After a call that throws, the state is the one the throw left behind.
\<close>

datatype 'w action =
    Config "'w jsval" "'w jsval" "'w jsval"
  | LoadImage "'w jsval" "'w jsval" "'w jsval" "'w jsval" "'w jsval" "'w jsval" "'w jsval"
  | LoadVideo "'w jsval" "'w jsval" "'w jsval" "'w jsval" "'w jsval" "'w jsval" "'w jsval"
  | ExecuteFn "'w jsval" "'w jsval" "'w jsval" "'w jsval" "'w jsval"
  | Destroy
  | Notify nat "entry list"
  | Mutate "dom_store \<Rightarrow> dom_store"

fun step :: "'w host \<Rightarrow> 'w action \<Rightarrow> 'w state \<Rightarrow> 'w state" where
  "step H (Config r b a) st = snd (config r b a st)"
| "step H (LoadImage sel tgt att imgs r b a) st = snd (loadImage H sel tgt att imgs r b a st)"
| "step H (LoadVideo sel tgt att vids r b a) st = snd (loadVideo H sel tgt att vids r b a st)"
| "step H (ExecuteFn sel f r b a) st = snd (executeFn H sel f r b a st)"
| "step H Destroy st = snd (destroy st)"
| "step H (Notify obs changes) st = snd (notify H obs changes st)"
| "step H (Mutate g) st = st\<lparr>dom := g (dom st)\<rparr>"

definition run :: "'w host \<Rightarrow> 'w action list \<Rightarrow> 'w state \<Rightarrow> 'w state" where
  "run H acts st = fold (step H) acts st"

text \<open>
  \<open>shrinks h h'\<close>: every observer of \<open>h\<close> is still there in \<open>h'\<close> and tracks no element it
  did not track in \<open>h\<close>.
\<close>

definition shrinks :: "'w intersection_observer list \<Rightarrow> 'w intersection_observer list \<Rightarrow> bool" where
  "shrinks h h' \<longleftrightarrow>
     length h \<le> length h' \<and> (\<forall>i<length h. set (targets (h' ! i)) \<subseteq> set (targets (h ! i)))"

subsection \<open>Exchanging the two pending-path slots\<close>

text \<open>
  To compare \<open>loadVideo\<close> with \<open>loadImage\<close>, everything that mentions one of the two data
  slots is rewritten to mention the other: the element data, the host functions that
  look at element data or name an attribute to store, the callbacks held by the
  observers, and the four error messages that name images or videos (also where the
  host's observer constructor throws one of them). \<open>swapHost H\<close> is the host \<open>H\<close> as it
  looks after that renaming: what \<open>H\<close> matches or stores under one slot's name, it matches
  or stores under the other's.
\<close>

definition swapKey :: "string \<Rightarrow> string" where
  "swapKey k = (if k = imageUrl then videoUrl else if k = videoUrl then imageUrl else k)"

definition swapStore :: "dom_store \<Rightarrow> dom_store" where
  "swapStore d = d\<lparr>attrs := (\<lambda>e k. attrs d e (swapKey k))\<rparr>"

fun swapCallback :: "'w callback \<Rightarrow> 'w callback" where
  "swapCallback (RenderImage t a) = RenderVideo t a"
| "swapCallback (RenderVideo t a) = RenderImage t a"
| "swapCallback (HandleFunctionExecution f) = HandleFunctionExecution f"

definition swapObserver :: "'w intersection_observer \<Rightarrow> 'w intersection_observer" where
  "swapObserver ob = ob\<lparr>callback := swapCallback (callback ob)\<rparr>"

definition swapState :: "'w state \<Rightarrow> 'w state" where
  "swapState st = st\<lparr>heap := map swapObserver (heap st), dom := swapStore (dom st)\<rparr>"

fun swapError :: "error \<Rightarrow> error" where
  "swapError ImagePathError = VideoPathError"
| "swapError VideoPathError = ImagePathError"
| "swapError ImagesNotArray = VideosNotArray"
| "swapError VideosNotArray = ImagesNotArray"
| "swapError err = err"

definition swapHost :: "'w host \<Rightarrow> 'w host" where
  "swapHost H = H\<lparr>matchAll := (\<lambda>d. matchAll H (swapStore d)),
                  matchWithin := (\<lambda>d. matchWithin H (swapStore d)),
                  storedName := (\<lambda>e k. swapKey (storedName H e k)),
                  observerInit := (\<lambda>opts. map_option swapError (observerInit H opts))\<rparr>"

definition swapOutcome :: "'w outcome \<Rightarrow> 'w outcome" where
  "swapOutcome r = (map_option swapError (fst r), swapState (snd r))"

subsection \<open>The reveal in the words of the specification\<close>

text \<open>
  Section 4.2 of the specification describes what a reveal writes: the action
  "determines the actual write target (either srcTarget's match within the element, or
  the element itself) and writes the payload to either the named attr or the
  conventional source property". The two functions below say that, to be compared with
  the callbacks: \<open>specTarget\<close> is the write target, if there is one, and \<open>specWrite\<close> the
  element data after the write. A \<open>srcTarget\<close> or \<open>attr\<close> that is null or the empty string
  is one that is not given, and an attribute is stored under the name the host gives it.
\<close>

definition specTarget :: "'w host \<Rightarrow> dom_store \<Rightarrow> string option \<Rightarrow> elem \<Rightarrow> elem option" where
  "specTarget H d srcTarget x =
     (case srcTarget of
        None \<Rightarrow> Some x
      | Some t \<Rightarrow> if t = [] then Some x else matchWithin H d x t)"

definition specWrite :: "'w host \<Rightarrow> string option \<Rightarrow> elem \<Rightarrow> string \<Rightarrow> dom_store \<Rightarrow> dom_store" where
  "specWrite H attr y p d =
     (case attr of
        None \<Rightarrow> set_src y p d
      | Some k \<Rightarrow> if k = [] then set_src y p d else set_attr y (storedName H y k) p d)"

text \<open>\<open>reported changes x\<close>: the changes hold an entry that reports element \<open>x\<close> as intersecting.\<close>

definition reported :: "entry list \<Rightarrow> elem \<Rightarrow> bool" where
  "reported changes x \<longleftrightarrow> (\<exists>c\<in>set changes. target c = x \<and> isIntersecting c)"

subsection \<open>A small page\<close>

text \<open>ASCII lower case, as an HTML document applies it to attribute names.\<close>

definition lowerChar :: "char \<Rightarrow> char" where
  "lowerChar c =
     (case map_of (zip ''ABCDEFGHIJKLMNOPQRSTUVWXYZ'' ''abcdefghijklmnopqrstuvwxyz'') c of
        Some l \<Rightarrow> l | None \<Rightarrow> c)"

definition asciiLower :: "string \<Rightarrow> string" where
  "asciiLower k = map lowerChar k"

text \<open>
  An HTML page for concrete runs: two images matched by \<open>img.lazy\<close> (elements 0 and 1), a
  button \<open>#cta\<close> (element 2), a \<open>source\<close> child of the first image's element (element 3,
  what \<open>source\<close> matches inside element 0), and a selector engine that rejects the string
  \<open>img[\<close>. Element 0 carries \<open>data-image-url="a.jpg"\<close> and \<open>data-video-url="a.mp4"\<close> in the
  markup; element 1 carries \<open>data-image-url=""\<close>, no \<open>data-video-url\<close>, and a placeholder as
  its \<open>src\<close>. The caller's state is a counter.
\<close>

definition page :: "nat host" where
  "page = \<lparr>selectorValid = (\<lambda>s. s \<noteq> ''img[''),
           matchAll = (\<lambda>d s. if s = ''img.lazy'' then [0, 1] else if s = ''#cta'' then [2]
                          else if s = ''source'' then [3] else []),
           matchWithin = (\<lambda>d e s. if e = 0 \<and> s = ''source'' then Some 3 else None),
           attrNameValid = (\<lambda>k. k \<noteq> []),
           storedName = (\<lambda>e k. asciiLower k),
           observerInit = (\<lambda>opts. None)\<rparr>"

definition markup :: dom_store where
  "markup = \<lparr>attrs = (\<lambda>e k. if e = 0 \<and> k = ''data-image-url'' then Some ''a.jpg''
                           else if e = 0 \<and> k = ''data-video-url'' then Some ''a.mp4''
                           else if e = 1 \<and> k = ''data-image-url'' then Some []
                           else None),
             src = (\<lambda>e. if e = 1 then Some ''placeholder.gif'' else None)\<rparr>"

definition fresh :: "nat state" where
  "fresh = snd (constructor markup 0 [])"

text \<open>The controller after \<open>loadImage({selector: "img.lazy"})\<close> on the fresh page.\<close>

definition watching :: "nat state" where
  "watching = snd (loadImage page (JStr ''img.lazy'') JUndefined JUndefined JUndefined
                     JUndefined JUndefined JUndefined fresh)"

text \<open>A callback that counts its calls and returns, and one that counts and throws.\<close>

definition counting :: "nat \<Rightarrow> error option \<times> nat" where
  "counting n = (None, Suc n)"

definition failing :: "nat \<Rightarrow> error option \<times> nat" where
  "failing n = (Some (HostError 0), Suc n)"

definition visible :: "elem \<Rightarrow> entry" where
  "visible e = \<lparr>target = e, isIntersecting = True\<rparr>"

text \<open>
  The controller after \<open>executeFn({selector: "#cta", exeFn: failing})\<close> on the fresh page,
  and after the button has become visible once.
\<close>

definition ctaFailing :: "nat state" where
  "ctaFailing = snd (executeFn page (JStr ''#cta'') (JFun failing) JUndefined JUndefined JUndefined fresh)"

definition ctaFailingSeen :: "nat state" where
  "ctaFailingSeen = snd (notify page 0 [visible 2] ctaFailing)"

text \<open>The same with the callback that returns.\<close>

definition ctaCounting :: "nat state" where
  "ctaCounting = snd (executeFn page (JStr ''#cta'') (JFun counting) JUndefined JUndefined JUndefined fresh)"

text \<open>The controller after \<open>loadVideo({selector: "img.lazy"})\<close> on the fresh page.\<close>

definition watchingVideo :: "nat state" where
  "watchingVideo = snd (loadVideo page (JStr ''img.lazy'') JUndefined JUndefined JUndefined
                          JUndefined JUndefined JUndefined fresh)"

text \<open>
  The controller of \<open>watching\<close> after the first image has become visible, and then after the
  second has.
\<close>

definition firstSeen :: "nat state" where
  "firstSeen = snd (notify page 0 [visible 0] watching)"

definition bothSeen :: "nat state" where
  "bothSeen = snd (notify page 0 [visible 1] firstSeen)"



text \<open>A script that attaches an image path to the second image.\<close>

definition attachLate :: "nat action" where
  "attachLate = Mutate (set_attr 1 imageUrl ''late.jpg'')"

section \<open>Properties\<close>

subsection \<open>Basic facts\<close>

lemma config_error_class:
  "fst (config r b a st) = Some err \<Longrightarrow> error_class_of err = ConfigError"
  by (auto simp: config_def Let_def split: if_splits)

lemma config_default:
  "config JUndefined JUndefined JUndefined st = (None, st\<lparr>options := Some defaults\<rparr>)"
  by (simp add: config_def Let_def defaults_def checkValidDOMElement_def)

lemma fresh_eq:
  "fresh = \<lparr>observer = None, options = Some defaults, heap = [], dom = markup, user = 0\<rparr>"
  by (simp add: fresh_def constructor_def config_default blank_def)

lemma page_simps [simp]:
  "selectorValid page s = (s \<noteq> ''img['')"
  "matchAll page d s = (if s = ''img.lazy'' then [0, 1] else if s = ''#cta'' then [2]
                          else if s = ''source'' then [3] else [])"
  "matchWithin page d e s = (if e = 0 \<and> s = ''source'' then Some 3 else None)"
  "attrNameValid page k = (k \<noteq> [])"
  "storedName page e k = asciiLower k"
  "observerInit page opts = None"
  by (simp_all add: page_def)

lemma watching_eq:
  "watching = fresh\<lparr>observer := Some 0,
       heap := [\<lparr>callback = RenderImage None None, init = Some defaults, targets = [0, 1]\<rparr>]\<rparr>"
  by (simp add: watching_def loadImage_def fresh_eq checkValidCSSSelector_def querySelector_def
        querySelectorAll_def reconfigure_def andThen_def newObserver_def observeEach_def observe_def
        loadImage_payloads_def checkSrcTarget_def checkAttr_def)

subsection \<open>Configuration\<close>

text \<open>
  What \<open>config\<close> checks. A \<open>loadAfter\<close> argument whose type is not number, or that compares
  below 0 or above 1, makes \<open>config\<close> throw an error of the configuration class, and so
  does a \<open>loadBefore\<close> argument whose type is not number or that compares below 0. Every
  real \<open>loadAfter\<close> in [0,1] and every real \<open>loadBefore\<close> from 0 upwards is accepted. An
  argument is a value other than undefined here: undefined reads as an omitted
  property and selects the default 0.
\<close>

lemma config_range_checks:
  "(loadAfter \<noteq> JUndefined \<and>
      (typeof loadAfter \<noteq> ''number'' \<or>
       (\<exists>a. loadAfter = JNum a \<and> (js_less a (Fin 0) \<or> js_less (Fin 1) a)))
      \<longrightarrow> (\<exists>err. fst (config r b loadAfter st) = Some err \<and> error_class_of err = ConfigError))
   \<and> (loadBefore \<noteq> JUndefined \<and>
      (typeof loadBefore \<noteq> ''number'' \<or> (\<exists>x. loadBefore = JNum x \<and> js_less x (Fin 0)))
      \<longrightarrow> (\<exists>err. fst (config r loadBefore a st) = Some err \<and> error_class_of err = ConfigError))
   \<and> (0 \<le> v \<and> v \<le> 1
      \<longrightarrow> fst (config r b (JNum (Fin v)) st) \<noteq> Some LoadAfterError
        \<and> ((r = JUndefined \<or> r = JNull \<or> (\<exists>e. r = JElem e)) \<and> 0 \<le> w
            \<longrightarrow> config r (JNum (Fin w)) (JNum (Fin v)) st =
                  (None, st\<lparr>options := Some \<lparr>root = dflt JNull r, rootMargin = Px (JNum (Fin w)),
                                               threshold = JNum (Fin v)\<rparr>\<rparr>)))
   \<and> (0 \<le> w \<longrightarrow> fst (config r (JNum (Fin w)) a st) \<noteq> Some LoadBeforeError)"
proof (intro conjI impI)
  assume "loadAfter \<noteq> JUndefined \<and>
      (typeof loadAfter \<noteq> ''number'' \<or>
       (\<exists>a. loadAfter = JNum a \<and> (js_less a (Fin 0) \<or> js_less (Fin 1) a)))"
  then have "fst (config r b loadAfter st) \<noteq> None"
    by (cases loadAfter) (auto simp: config_def Let_def)
  then show "\<exists>err. fst (config r b loadAfter st) = Some err \<and> error_class_of err = ConfigError"
    using config_error_class by fastforce
next
  assume "loadBefore \<noteq> JUndefined \<and>
      (typeof loadBefore \<noteq> ''number'' \<or> (\<exists>x. loadBefore = JNum x \<and> js_less x (Fin 0)))"
  then have "fst (config r loadBefore a st) \<noteq> None"
    by (cases loadBefore) (auto simp: config_def Let_def)
  then show "\<exists>err. fst (config r loadBefore a st) = Some err \<and> error_class_of err = ConfigError"
    using config_error_class by fastforce
next
  assume "0 \<le> v \<and> v \<le> 1"
  then show "fst (config r b (JNum (Fin v)) st) \<noteq> Some LoadAfterError"
    by (simp add: config_def Let_def)
next
  assume "0 \<le> v \<and> v \<le> 1" and "(r = JUndefined \<or> r = JNull \<or> (\<exists>e. r = JElem e)) \<and> 0 \<le> w"
  then show "config r (JNum (Fin w)) (JNum (Fin v)) st =
       (None, st\<lparr>options := Some \<lparr>root = dflt JNull r, rootMargin = Px (JNum (Fin w)),
                                    threshold = JNum (Fin v)\<rparr>\<rparr>)"
    by (auto simp: config_def Let_def checkValidDOMElement_def)
next
  assume "0 \<le> w"
  then show "fst (config r (JNum (Fin w)) a st) \<noteq> Some LoadBeforeError"
    by (simp add: config_def Let_def)
qed

text \<open>
  Claim C2 says that a \<open>loadAfter\<close> that is not a number between 0 and 1, and a \<open>loadBefore\<close>
  that is not a number from 0 upwards, make \<open>config\<close> throw; the messages of the two
  errors say the same. The code lets NaN through for either argument: its type is
  number and every comparison with it is false, so neither test fires and NaN becomes
  the threshold, or the margin "NaNpx".
\<close>

theorem config_accepts_NaN:
  "typeof (JNum NaN :: 'w jsval) = ''number''
   \<and> \<not> js_less NaN (Fin 0) \<and> \<not> js_less (Fin 1) NaN \<and> \<not> js_less (Fin 0) NaN \<and> NaN \<noteq> Fin v
   \<and> config JUndefined JUndefined (JNum NaN) (st :: 'w state) =
        (None, st\<lparr>options := Some \<lparr>root = JNull, rootMargin = Px (JNum (Fin 0)),
                                     threshold = JNum NaN\<rparr>\<rparr>)
   \<and> config JUndefined (JNum NaN) JUndefined st =
        (None, st\<lparr>options := Some \<lparr>root = JNull, rootMargin = Px (JNum NaN),
                                     threshold = JNum (Fin 0)\<rparr>\<rparr>)"
  by (simp add: config_def Let_def)

subsection \<open>Teardown\<close>

text \<open>
  Claim C7. \<open>destroy\<close> puts the default options back (root null, margin "0px", threshold
  0). With a current observer it returns normally and that observer is disconnected, so
  it holds no subscription any more. With \<open>#observer\<close> still null, that is, when no batch
  operation has created an observer yet, it throws the null-dereference error, the
  options having been reset already.
\<close>

theorem destroy_resets_and_disconnects:
  "options (snd (destroy st)) = Some defaults
   \<and> defaults = \<lparr>root = JNull, rootMargin = Px (JNum (Fin 0)), threshold = JNum (Fin 0)\<rparr>
   \<and> (observer st = Some i \<longrightarrow>
          destroy st = (None, st\<lparr>options := Some defaults, heap := disconnect i (heap st)\<rparr>)
          \<and> (i < length (heap st) \<longrightarrow> targets (heap (snd (destroy st)) ! i) = []))
   \<and> (observer st = None \<longrightarrow>
          destroy st = (Some NullDereference, st\<lparr>options := Some defaults\<rparr>))"
  by (auto simp: destroy_def config_default disconnect_def defaults_def split: option.splits)

theorem destroy_resets_and_disconnects_witness:
  "observer fresh = None
   \<and> destroy fresh = (Some NullDereference, fresh\<lparr>options := Some defaults\<rparr>)
   \<and> observer watching = Some 0 \<and> 0 < length (heap watching)
   \<and> targets (heap watching ! 0) = [0, 1]
   \<and> fst (destroy watching) = None
   \<and> targets (heap (snd (destroy watching)) ! 0) = []"
  using destroy_resets_and_disconnects [of fresh 0] destroy_resets_and_disconnects [of watching 0]
  by (simp add: watching_eq fresh_eq destroy_def config_default disconnect_def)

subsection \<open>The setup phase of loadImage and loadVideo\<close>

lemma config_frame:
  "heap (snd (config r b a st)) = heap st"
  "dom (snd (config r b a st)) = dom st"
  "observer (snd (config r b a st)) = observer st"
  "user (snd (config r b a st)) = user st"
  by (simp_all add: config_def Let_def)

lemma reconfigure_frame:
  "heap (snd (reconfigure r b a st)) = heap st"
  "dom (snd (reconfigure r b a st)) = dom st"
  "observer (snd (reconfigure r b a st)) = observer st"
  "user (snd (reconfigure r b a st)) = user st"
  by (simp_all add: reconfigure_def config_frame)

lemma checkValid_True:
  "checkValidCSSSelector H d s = Inr True \<longleftrightarrow> selectorValid H s \<and> matchAll H d s \<noteq> []"
  by (auto simp: checkValidCSSSelector_def querySelector_def split: list.splits)

lemma newObserver_armed:
  "observerInit H (options st) = None \<Longrightarrow> newObserver H cb st = (None, armed cb st)"
  by (simp add: newObserver_def armed_def)

lemma captures_cases:
  "captures v c \<Longrightarrow>
     (case dflt JNull v of JNull \<Rightarrow> f | JStr t \<Rightarrow> g t | _ \<Rightarrow> h) = (case c of None \<Rightarrow> f | Some t \<Rightarrow> g t)"
  by (auto simp: captures_def split: option.splits)

lemma loadImage_after_setup:
  assumes "setupPasses H sel srcTarget tgt attr att r b a st st1"
  shows "loadImage H (JStr sel) srcTarget attr images r b a st =
     (let st2 = armed (RenderImage tgt att) st1; elements = matchAll H (dom st) sel
      in case dflt (JArr []) images of
           JArr imgs \<Rightarrow>
             (case (if imgs \<noteq> [] then loadImage_loop elements imgs 0 (dom st) else (None, dom st)) of
                (Some err, d) \<Rightarrow> (Some err, st2\<lparr>dom := d\<rparr>)
              | (None, d) \<Rightarrow> observeEach elements (st2\<lparr>dom := d\<rparr>))
         | _ \<Rightarrow> (Some ImagesNotArray, st2))"
proof -
  from assms have sel: "checkValidCSSSelector H (dom st) sel = Inr True"
    and ct: "captures srcTarget tgt"
    and vt: "case tgt of None \<Rightarrow> True | Some t \<Rightarrow> checkValidCSSSelector H (dom st) t = Inr True"
    and ca: "captures attr att"
    and cfg: "reconfigure (dflt JNull r) (dflt (JNum (Fin 0)) b) (dflt (JNum (Fin 0)) a) st = (None, st1)"
    and ini: "observerInit H (options st1) = None"
    by (simp_all add: setupPasses_def)
  from sel have sv: "selectorValid H sel" by (simp add: checkValid_True)
  from cfg reconfigure_frame(2)[of "dflt JNull r" "dflt (JNum (Fin 0)) b" "dflt (JNum (Fin 0)) a" st]
  have d1: "dom st1 = dom st" by simp
  have tg: "checkSrcTarget H (dom st) (dflt JNull srcTarget) = Inr tgt"
    using vt by (simp add: checkSrcTarget_def captures_cases[OF ct] split: option.splits)
  have at: "checkAttr (dflt JNull attr) = Inr att"
    by (simp add: checkAttr_def captures_cases[OF ca] split: option.splits)
  show ?thesis
    unfolding loadImage_def loadImage_payloads_def Let_def
    by (cases "dflt (JArr []) images")
       (simp_all add: sel tg at cfg andThen_def newObserver_armed[OF ini] querySelectorAll_def sv d1
          armed_def split: prod.split option.split)
qed

lemma assignAll_Nil [simp]: "assignAll k [] ps d = d" "assignAll k es [] d = d"
  by (simp_all add: assignAll_def)

lemma assignAll_Cons [simp]:
  "assignAll k (e # es) (p # ps) d = assignAll k es ps (set_attr e k p d)"
  by (simp add: assignAll_def)

lemma src_set_attr [simp]: "src (set_attr e k p d) = src d"
  by (simp add: set_attr_def)

lemma attrs_set_attr:
  "attrs (set_attr e k p d) e' k' = (if e' = e \<and> k' = k then Some p else attrs d e' k')"
  by (simp add: set_attr_def)

lemma src_assignAll [simp]: "src (assignAll k es ps d) = src d"
  by (induction es ps arbitrary: d rule: list_induct2') simp_all

lemma attrs_assignAll_other:
  "k' \<noteq> k \<or> e \<notin> set (take (length ps) es) \<Longrightarrow> attrs (assignAll k es ps d) e k' = attrs d e k'"
  by (induction es ps arbitrary: d rule: list_induct2') (auto simp: attrs_set_attr)

lemma stringPrefix_map_JStr [simp]: "stringPrefix (map JStr ps) = ps"
  by (induction ps) simp_all

lemma attrs_assignAll_nth:
  "distinct es \<Longrightarrow> j < length es \<Longrightarrow> j < length ps \<Longrightarrow>
     attrs (assignAll k es ps d) (es ! j) k = Some (ps ! j)"
proof (induction es ps arbitrary: d j rule: list_induct2')
  case (4 e es p ps)
  show ?case
  proof (cases j)
    case 0
    from 4(2) have "e \<notin> set (take (length ps) es)"
      by (auto dest: in_set_takeD)
    then have "attrs (assignAll k es ps (set_attr e k p d)) e k = attrs (set_attr e k p d) e k"
      by (rule attrs_assignAll_other [OF disjI2])
    with 0 show ?thesis
      by (simp add: attrs_set_attr)
  next
    case (Suc n)
    with 4(2-4) have "attrs (assignAll k es ps (set_attr e k p d)) (es ! n) k = Some (ps ! n)"
      by (intro 4(1)) simp_all
    with Suc show ?thesis by simp
  qed
qed simp_all

lemma loadImage_loop_closed:
  "i \<le> length images \<Longrightarrow>
   loadImage_loop elements images i d =
     (let ps = stringPrefix (drop i images); es = drop i elements
      in (if length es < length ps then Some NullDereference
          else if length ps < length images - i then Some ImagePathError
          else None,
          assignAll imageUrl es ps d))"
proof (induction elements images i d rule: loadImage_loop.induct)
  case (1 elements images i d)
  show ?case
  proof (cases "i < length images")
    case False
    with 1(2) show ?thesis
      by (subst loadImage_loop.simps) simp
  next
    case True
    then have dr: "drop i images = images ! i # drop (Suc i) images"
      by (simp add: Cons_nth_drop_Suc)
    show ?thesis
    proof (cases "\<exists>p. images ! i = JStr p")
      case False
      then have "stringPrefix (drop i images) = []"
        unfolding dr by (cases "images ! i") simp_all
      moreover from False have "loadImage_loop elements images i d = (Some ImagePathError, d)"
        using True by (subst loadImage_loop.simps) (cases "images ! i"; simp)
      ultimately show ?thesis
        using True by simp
    next
      case str: True
      then obtain p where p: "images ! i = JStr p" by blast
      show ?thesis
      proof (cases "i < length elements")
        case False
        then show ?thesis
          using True p dr by (subst loadImage_loop.simps) simp
      next
        case el: True
        then have de: "drop i elements = elements ! i # drop (Suc i) elements"
          by (simp add: Cons_nth_drop_Suc)
        have "loadImage_loop elements images i d =
                loadImage_loop elements images (Suc i) (set_attr (elements ! i) imageUrl p d)"
          using True p el by (subst loadImage_loop.simps) simp
        also have "\<dots> = (let ps = stringPrefix (drop (Suc i) images); es = drop (Suc i) elements
            in (if length es < length ps then Some NullDereference
                else if length ps < length images - Suc i then Some ImagePathError
                else None,
                assignAll imageUrl es ps (set_attr (elements ! i) imageUrl p d)))"
          using 1(1)[OF True p el] True by simp
        finally show ?thesis
          using True by (simp add: dr de p Let_def) arith
      qed
    qed
  qed
qed

lemma observeEach_fold:
  "observer st = Some n \<Longrightarrow>
     observeEach elements st = (None, st\<lparr>heap := fold (observe n) elements (heap st)\<rparr>)"
  unfolding observeEach_def
  by (induction elements arbitrary: st) simp_all

lemma observe_last:
  "e \<notin> set (targets ob) \<Longrightarrow>
     observe (length h) e (h @ [ob]) = h @ [ob\<lparr>targets := targets ob @ [e]\<rparr>]"
  by (simp add: observe_def)

lemma fold_observe_last:
  "distinct (targets ob @ es) \<Longrightarrow>
     fold (observe (length h)) es (h @ [ob]) = h @ [ob\<lparr>targets := targets ob @ es\<rparr>]"
proof (induction es arbitrary: ob)
  case Nil
  then show ?case by simp
next
  case (Cons e es)
  then have "e \<notin> set (targets ob)" and "distinct (targets (ob\<lparr>targets := targets ob @ [e]\<rparr>) @ es)"
    by auto
  then show ?case
    using Cons.IH[of "ob\<lparr>targets := targets ob @ [e]\<rparr>"] by (simp add: observe_last)
qed

lemma observeEach_armed:
  "distinct es \<Longrightarrow>
     observeEach es ((armed cb st)\<lparr>dom := d\<rparr>) =
       (None, st\<lparr>observer := Some (length (heap st)),
                 heap := heap st @ [\<lparr>callback = cb, init = options st, targets = es\<rparr>],
                 dom := d\<rparr>)"
  using fold_observe_last[of "\<lparr>callback = cb, init = options st, targets = []\<rparr>" es "heap st"]
  by (simp add: observeEach_fold[of _ "length (heap st)"] armed_def)

lemma loadImage_closed:
  assumes "setupPasses H sel srcTarget tgt attr att r b a st st1"
  shows "loadImage H (JStr sel) srcTarget attr (JArr imgs) r b a st =
     (let els = matchAll H (dom st) sel; ps = stringPrefix imgs;
          st2 = (armed (RenderImage tgt att) st1)\<lparr>dom := assignAll imageUrl els ps (dom st)\<rparr>
      in if length els < length ps then (Some NullDereference, st2)
         else if length ps < length imgs then (Some ImagePathError, st2)
         else observeEach els st2)"
proof -
  from assms have cfg: "reconfigure (dflt JNull r) (dflt (JNum (Fin 0)) b) (dflt (JNum (Fin 0)) a) st = (None, st1)"
    by (simp add: setupPasses_def)
  from cfg reconfigure_frame(2)[of "dflt JNull r" "dflt (JNum (Fin 0)) b" "dflt (JNum (Fin 0)) a" st]
  have d1: "dom st1 = dom st" by simp
  have eq: "(armed (RenderImage tgt att) st1)\<lparr>dom := dom st\<rparr> = armed (RenderImage tgt att) st1"
    by (simp add: armed_def d1[symmetric])
  show ?thesis
  proof (cases "imgs = []")
    case True
    then show ?thesis
      by (simp add: loadImage_after_setup[OF assms] Let_def eq)
  next
    case False
    then show ?thesis
      by (simp add: loadImage_after_setup[OF assms] Let_def loadImage_loop_closed)
  qed
qed

lemma loadVideo_after_setup:
  assumes "setupPasses H sel srcTarget tgt attr att r b a st st1"
  shows "loadVideo H (JStr sel) srcTarget attr videos r b a st =
     (let st2 = armed (RenderVideo tgt att) st1; elements = matchAll H (dom st) sel
      in case dflt (JArr []) videos of
           JArr vids \<Rightarrow>
             (case (if vids \<noteq> [] then loadVideo_loop elements vids 0 (dom st) else (None, dom st)) of
                (Some err, d) \<Rightarrow> (Some err, st2\<lparr>dom := d\<rparr>)
              | (None, d) \<Rightarrow> observeEach elements (st2\<lparr>dom := d\<rparr>))
         | _ \<Rightarrow> (Some VideosNotArray, st2))"
proof -
  from assms have sel: "checkValidCSSSelector H (dom st) sel = Inr True"
    and ct: "captures srcTarget tgt"
    and vt: "case tgt of None \<Rightarrow> True | Some t \<Rightarrow> checkValidCSSSelector H (dom st) t = Inr True"
    and ca: "captures attr att"
    and cfg: "reconfigure (dflt JNull r) (dflt (JNum (Fin 0)) b) (dflt (JNum (Fin 0)) a) st = (None, st1)"
    and ini: "observerInit H (options st1) = None"
    by (simp_all add: setupPasses_def)
  from sel have sv: "selectorValid H sel" by (simp add: checkValid_True)
  from cfg reconfigure_frame(2)[of "dflt JNull r" "dflt (JNum (Fin 0)) b" "dflt (JNum (Fin 0)) a" st]
  have d1: "dom st1 = dom st" by simp
  have tg: "checkSrcTarget H (dom st) (dflt JNull srcTarget) = Inr tgt"
    using vt by (simp add: checkSrcTarget_def captures_cases[OF ct] split: option.splits)
  have at: "checkAttr (dflt JNull attr) = Inr att"
    by (simp add: checkAttr_def captures_cases[OF ca] split: option.splits)
  show ?thesis
    unfolding loadVideo_def loadVideo_payloads_def Let_def
    by (cases "dflt (JArr []) videos")
       (simp_all add: sel tg at cfg andThen_def newObserver_armed[OF ini] querySelectorAll_def sv d1
          armed_def split: prod.split option.split)
qed

lemma loadVideo_loop_closed:
  "i \<le> length videos \<Longrightarrow>
   loadVideo_loop elements videos i d =
     (let ps = stringPrefix (drop i videos); es = drop i elements
      in (if length es < length ps then Some NullDereference
          else if length ps < length videos - i then Some VideoPathError
          else None,
          assignAll videoUrl es ps d))"
proof (induction elements videos i d rule: loadVideo_loop.induct)
  case (1 elements videos i d)
  show ?case
  proof (cases "i < length videos")
    case False
    with 1(2) show ?thesis
      by (subst loadVideo_loop.simps) simp
  next
    case True
    then have dr: "drop i videos = videos ! i # drop (Suc i) videos"
      by (simp add: Cons_nth_drop_Suc)
    show ?thesis
    proof (cases "\<exists>p. videos ! i = JStr p")
      case False
      then have "stringPrefix (drop i videos) = []"
        unfolding dr by (cases "videos ! i") simp_all
      moreover from False have "loadVideo_loop elements videos i d = (Some VideoPathError, d)"
        using True by (subst loadVideo_loop.simps) (cases "videos ! i"; simp)
      ultimately show ?thesis
        using True by simp
    next
      case str: True
      then obtain p where p: "videos ! i = JStr p" by blast
      show ?thesis
      proof (cases "i < length elements")
        case False
        then show ?thesis
          using True p dr by (subst loadVideo_loop.simps) simp
      next
        case el: True
        then have de: "drop i elements = elements ! i # drop (Suc i) elements"
          by (simp add: Cons_nth_drop_Suc)
        have "loadVideo_loop elements videos i d =
                loadVideo_loop elements videos (Suc i) (set_attr (elements ! i) videoUrl p d)"
          using True p el by (subst loadVideo_loop.simps) simp
        also have "\<dots> = (let ps = stringPrefix (drop (Suc i) videos); es = drop (Suc i) elements
            in (if length es < length ps then Some NullDereference
                else if length ps < length videos - Suc i then Some VideoPathError
                else None,
                assignAll videoUrl es ps (set_attr (elements ! i) videoUrl p d)))"
          using 1(1)[OF True p el] True by simp
        finally show ?thesis
          using True by (simp add: dr de p Let_def) arith
      qed
    qed
  qed
qed

lemma loadVideo_closed:
  assumes "setupPasses H sel srcTarget tgt attr att r b a st st1"
  shows "loadVideo H (JStr sel) srcTarget attr (JArr vids) r b a st =
     (let els = matchAll H (dom st) sel; ps = stringPrefix vids;
          st2 = (armed (RenderVideo tgt att) st1)\<lparr>dom := assignAll videoUrl els ps (dom st)\<rparr>
      in if length els < length ps then (Some NullDereference, st2)
         else if length ps < length vids then (Some VideoPathError, st2)
         else observeEach els st2)"
proof -
  from assms have cfg: "reconfigure (dflt JNull r) (dflt (JNum (Fin 0)) b) (dflt (JNum (Fin 0)) a) st = (None, st1)"
    by (simp add: setupPasses_def)
  from cfg reconfigure_frame(2)[of "dflt JNull r" "dflt (JNum (Fin 0)) b" "dflt (JNum (Fin 0)) a" st]
  have d1: "dom st1 = dom st" by simp
  have eq: "(armed (RenderVideo tgt att) st1)\<lparr>dom := dom st\<rparr> = armed (RenderVideo tgt att) st1"
    by (simp add: armed_def d1[symmetric])
  show ?thesis
  proof (cases "vids = []")
    case True
    then show ?thesis
      by (simp add: loadVideo_after_setup[OF assms] Let_def eq)
  next
    case False
    then show ?thesis
      by (simp add: loadVideo_after_setup[OF assms] Let_def loadVideo_loop_closed)
  qed
qed

lemma setupPasses_frame:
  assumes "setupPasses H sel srcTarget tgt attr att r b a st st1"
  shows "heap st1 = heap st" "dom st1 = dom st" "observer st1 = observer st" "user st1 = user st"
proof -
  from assms have cfg: "reconfigure (dflt JNull r) (dflt (JNum (Fin 0)) b) (dflt (JNum (Fin 0)) a) st = (None, st1)"
    by (simp add: setupPasses_def)
  show "heap st1 = heap st" "dom st1 = dom st" "observer st1 = observer st" "user st1 = user st"
    using reconfigure_frame[of "dflt JNull r" "dflt (JNum (Fin 0)) b" "dflt (JNum (Fin 0)) a" st] cfg
    by simp_all
qed

lemma stringPrefix_upto:
  "k < length imgs \<Longrightarrow> \<forall>j<k. \<exists>p. imgs ! j = JStr p \<Longrightarrow> \<forall>p. imgs ! k \<noteq> JStr p \<Longrightarrow>
     length (stringPrefix imgs) = k \<and> (\<forall>j<k. imgs ! j = JStr (stringPrefix imgs ! j))"
proof (induction imgs arbitrary: k)
  case Nil
  then show ?case by simp
next
  case (Cons v vs)
  show ?case
  proof (cases k)
    case 0
    with Cons.prems(3) show ?thesis by (cases v) simp_all
  next
    case (Suc n)
    with Cons.prems(2) obtain p where v: "v = JStr p" by fastforce
    have "n < length vs" "\<forall>j<n. \<exists>p. vs ! j = JStr p" "\<forall>p. vs ! n \<noteq> JStr p"
      using Cons.prems Suc by auto
    from Cons.IH[OF this] show ?thesis
      using Suc v by (auto simp: nth_Cons split: nat.splits)
  qed
qed

lemma page_passes:
  "setupPasses page ''img.lazy'' JUndefined None JUndefined None JUndefined JUndefined JUndefined fresh fresh"
  by (simp add: setupPasses_def checkValidCSSSelector_def querySelector_def captures_def
        reconfigure_def fresh_eq)

subsection \<open>Payload arrays longer than the element list\<close>



subsection \<open>Payload assignment in order\<close>

text \<open>
  Claim C5. With a non-empty array of strings, the \<open>i\<close>-th path is stored in the pending
  image slot of the \<open>i\<close>-th resolved element for every index both sequences have, and an
  element beyond the end of the array keeps its attributes (so the pending path it had
  in the markup) and its \<open>src\<close>. The call returns normally, with every resolved element
  subscribed, when the array is not the longer one; when it is, the call throws.
\<close>

theorem payloads_assigned_in_order:
  assumes "setupPasses H sel srcTarget tgt attr att r b a st st1"
      and "paths \<noteq> []"
      and "distinct (matchAll H (dom st) sel)"
  shows "let els = matchAll H (dom st) sel;
             res = loadImage H (JStr sel) srcTarget attr (JArr (map JStr paths)) r b a st
         in (i < length paths \<and> i < length els \<longrightarrow>
                 attrs (dom (snd res)) (els ! i) imageUrl = Some (paths ! i))
          \<and> (length paths \<le> j \<and> j < length els \<longrightarrow>
                 attrs (dom (snd res)) (els ! j) = attrs (dom st) (els ! j)
                 \<and> src (dom (snd res)) (els ! j) = src (dom st) (els ! j))
          \<and> (length paths \<le> length els \<longrightarrow>
                 fst res = None \<and> targets (heap (snd res) ! length (heap st)) = els)
          \<and> (length els < length paths \<longrightarrow> fst res = Some NullDereference)"
proof -
  define els where "els = matchAll H (dom st) sel"
  define d where "d = assignAll imageUrl els paths (dom st)"
  have a: "i < length paths \<and> i < length els \<longrightarrow> attrs d (els ! i) imageUrl = Some (paths ! i)"
    using assms(3) unfolding d_def els_def by (simp add: attrs_assignAll_nth)
  have b: "length paths \<le> j \<and> j < length els \<longrightarrow>
              attrs d (els ! j) = attrs (dom st) (els ! j) \<and> src d (els ! j) = src (dom st) (els ! j)"
  proof (intro impI conjI)
    assume j: "length paths \<le> j \<and> j < length els"
    have "els ! j \<notin> set (take (length paths) els)"
    proof
      assume "els ! j \<in> set (take (length paths) els)"
      then obtain m where m: "m < length paths" "m < length els" "els ! m = els ! j"
        by (auto simp: in_set_conv_nth)
      with assms(3) j have "m = j"
        unfolding els_def by (simp add: nth_eq_iff_index_eq)
      with m j show False by simp
    qed
    then show "attrs d (els ! j) = attrs (dom st) (els ! j)"
      unfolding d_def by (intro ext) (simp add: attrs_assignAll_other)
    show "src d (els ! j) = src (dom st) (els ! j)"
      unfolding d_def by simp
  qed
  have h: "heap st1 = heap st"
    by (rule setupPasses_frame(1)[OF assms(1)])
  show ?thesis
    using a b assms(3)
    by (simp add: loadImage_closed[OF assms(1)] Let_def els_def[symmetric] d_def[symmetric]
          observeEach_armed h)
qed

theorem payloads_assigned_in_order_witness:
  "setupPasses page ''img.lazy'' JUndefined None JUndefined None JUndefined JUndefined JUndefined fresh fresh
   \<and> [''z.jpg''] \<noteq> [] \<and> distinct (matchAll page (dom fresh) ''img.lazy'')
   \<and> (let res = loadImage page (JStr ''img.lazy'') JUndefined JUndefined (JArr (map JStr [''z.jpg'']))
                    JUndefined JUndefined JUndefined fresh
       in attrs (dom (snd res)) 0 imageUrl = Some ''z.jpg''
        \<and> attrs (dom (snd res)) 1 = attrs (dom fresh) 1
        \<and> fst res = None \<and> targets (heap (snd res) ! 0) = [0, 1])"
  using payloads_assigned_in_order
          [of page "''img.lazy''" JUndefined None JUndefined None JUndefined JUndefined JUndefined
              fresh fresh "[''z.jpg'']" 0 1]
        page_passes
  by (simp add: Let_def fresh_eq)

subsection \<open>Arrays with an entry that is not a string\<close>

text \<open>
  Claim C3 says that a call with a non-string entry throws before any subscription and
  mutates no element. The second half fails: with \<open>images = ["z.jpg", 1]\<close> the call
  throws on the second entry after it has overwritten the pending path of the first
  element.
\<close>

theorem mixed_array_counterexample:
  "fst (loadImage page (JStr ''img.lazy'') JUndefined JUndefined (JArr [JStr ''z.jpg'', JNum (Fin 1)])
          JUndefined JUndefined JUndefined fresh) = Some ImagePathError
   \<and> attrs (dom fresh) 0 imageUrl = Some ''a.jpg''
   \<and> attrs (dom (snd (loadImage page (JStr ''img.lazy'') JUndefined JUndefined
                          (JArr [JStr ''z.jpg'', JNum (Fin 1)])
                          JUndefined JUndefined JUndefined fresh))) 0 imageUrl = Some ''z.jpg''"
proof -
  have "loadImage page (JStr ''img.lazy'') JUndefined JUndefined (JArr [JStr ''z.jpg'', JNum (Fin 1)])
          JUndefined JUndefined JUndefined fresh =
        (Some ImagePathError,
         (armed (RenderImage None None) fresh)\<lparr>dom := set_attr 0 imageUrl ''z.jpg'' (dom fresh)\<rparr>)"
    by (simp add: loadImage_closed[OF page_passes] Let_def)
  then show ?thesis
    by (simp add: fresh_eq markup_def imageUrl_def set_attr_def)
qed

text \<open>
  Claim C3 as amended. Let \<open>k\<close> be the index of the first entry that is not a string.
  Once the steps before the loop have passed, \<open>loadImage\<close> (and \<open>loadVideo\<close>) throws the
  path type error when \<open>k\<close> is at most the number of resolved elements, and the
  null-dereference error otherwise. Either way no element is subscribed: the heap gains
  a new observer without targets and nothing else. The elements at the indices below
  \<open>k\<close> have been assigned their paths by then; only for \<open>k = 0\<close> is the element data
  untouched.
\<close>

theorem non_string_entry_throws_before_subscription:
  assumes "setupPasses H sel srcTarget tgt attr att r b a st st1"
      and "k < length arr"
      and "\<forall>j<k. \<exists>p. arr ! j = JStr p"
      and "\<forall>p. arr ! k \<noteq> JStr p"
  shows "let els = matchAll H (dom st) sel; ps = stringPrefix arr
         in length ps = k \<and> (\<forall>j<k. arr ! j = JStr (ps ! j))
          \<and> loadImage H (JStr sel) srcTarget attr (JArr arr) r b a st =
              (Some (if k \<le> length els then ImagePathError else NullDereference),
               (armed (RenderImage tgt att) st1)\<lparr>dom := assignAll imageUrl els ps (dom st)\<rparr>)
          \<and> loadVideo H (JStr sel) srcTarget attr (JArr arr) r b a st =
              (Some (if k \<le> length els then VideoPathError else NullDereference),
               (armed (RenderVideo tgt att) st1)\<lparr>dom := assignAll videoUrl els ps (dom st)\<rparr>)
          \<and> heap (armed cb st1) = heap st @ [\<lparr>callback = cb, init = options st1, targets = []\<rparr>]
          \<and> (k = 0 \<longrightarrow> assignAll imageUrl els ps (dom st) = dom st
                      \<and> assignAll videoUrl els ps (dom st) = dom st)
          \<and> (distinct els \<longrightarrow> (\<forall>j. j < k \<and> j < length els \<longrightarrow>
                 attrs (assignAll imageUrl els ps (dom st)) (els ! j) imageUrl = Some (ps ! j)
               \<and> attrs (assignAll videoUrl els ps (dom st)) (els ! j) videoUrl = Some (ps ! j)))
          \<and> error_class_of ImagePathError = TypeError \<and> error_class_of VideoPathError = TypeError"
proof -
  from stringPrefix_upto[OF assms(2-4)]
  have len: "length (stringPrefix arr) = k" and str: "\<forall>j<k. arr ! j = JStr (stringPrefix arr ! j)"
    by simp_all
  have h: "heap st1 = heap st"
    by (rule setupPasses_frame(1)[OF assms(1)])
  from len have nil: "k = 0 \<Longrightarrow> stringPrefix arr = []"
    by simp
  show ?thesis
    using assms(2) str
    by (auto simp: loadImage_closed[OF assms(1)] loadVideo_closed[OF assms(1)] Let_def len
          armed_def h attrs_assignAll_nth nil)
qed

theorem non_string_entry_witness:
  "setupPasses page ''img.lazy'' JUndefined None JUndefined None JUndefined JUndefined JUndefined fresh fresh
   \<and> (1::nat) < length [JStr ''z.jpg'', JNum (Fin 1) :: nat jsval]
   \<and> [JStr ''z.jpg'', JNum (Fin 1) :: nat jsval] ! 0 = JStr ''z.jpg''
   \<and> [JStr ''z.jpg'', JNum (Fin 1) :: nat jsval] ! 1 = JNum (Fin 1)
   \<and> fst (loadImage page (JStr ''img.lazy'') JUndefined JUndefined (JArr [JStr ''z.jpg'', JNum (Fin 1)])
            JUndefined JUndefined JUndefined fresh) = Some ImagePathError
   \<and> fst (loadVideo page (JStr ''img.lazy'') JUndefined JUndefined (JArr [JStr ''z.jpg'', JNum (Fin 1)])
            JUndefined JUndefined JUndefined fresh) = Some VideoPathError"
  using non_string_entry_throws_before_subscription
          [of page "''img.lazy''" JUndefined None JUndefined None JUndefined JUndefined JUndefined
              fresh fresh 1 "[JStr ''z.jpg'', JNum (Fin 1)]"]
        page_passes
  by (simp add: Let_def)

subsection \<open>Observers never gain targets after their creation\<close>

lemma shrinks_refl [simp]: "shrinks h h"
  by (simp add: shrinks_def)

lemma shrinks_trans: "shrinks h h1 \<Longrightarrow> shrinks h1 h2 \<Longrightarrow> shrinks h h2"
  unfolding shrinks_def by (meson dual_order.trans order_less_le_trans)

lemma shrinks_unobserve [simp]: "shrinks h (unobserve i e h)"
  by (auto simp: shrinks_def unobserve_def nth_list_update)

lemma shrinks_disconnect [simp]: "shrinks h (disconnect i h)"
  by (auto simp: shrinks_def disconnect_def nth_list_update)

lemma shrinks_prefix: "take (length h) h' = h \<Longrightarrow> shrinks h h'"
proof -
  assume t: "take (length h) h' = h"
  then have "length (take (length h) h') = length h"
    by simp
  then have l: "length h \<le> length h'"
    by simp
  have "\<forall>i<length h. h' ! i = h ! i"
    using t by (metis nth_take)
  with l show ?thesis
    by (simp add: shrinks_def)
qed

lemma take_observe: "k \<le> n \<Longrightarrow> take k (observe n e h) = take k h"
  by (simp add: observe_def)

lemma take_fold_observe: "k \<le> n \<Longrightarrow> take k (fold (observe n) es h) = take k h"
  by (induction es arbitrary: h) (simp_all add: take_observe)

lemma observeEach_prefix:
  "observer s = Some n \<Longrightarrow> k \<le> n \<Longrightarrow> take k (heap (snd (observeEach es s))) = take k (heap s)"
  by (simp add: observeEach_fold take_fold_observe)

lemma loadImage_payloads_prefix:
  "observer st2 = Some n \<Longrightarrow> k \<le> n \<Longrightarrow>
     take k (heap (snd (loadImage_payloads H sel images st2))) = take k (heap st2)"
  by (auto simp: loadImage_payloads_def observeEach_prefix
           split: sum.splits jsval.splits prod.splits option.splits)

lemma arm_then_prefix:
  assumes "\<And>st2 n. observer st2 = Some n \<Longrightarrow> length (heap st) \<le> n \<Longrightarrow>
             take (length (heap st)) (heap (snd (F st2))) = take (length (heap st)) (heap st2)"
  shows "take (length (heap st)) (heap (snd (andThen (newObserver H cb st) F))) = heap st"
proof (cases "observerInit H (options st)")
  case (Some err)
  show ?thesis
    by (simp add: newObserver_def andThen_def Some)
next
  case None
  have "take (length (heap st)) (heap (snd (F (armed cb st)))) = take (length (heap st)) (heap (armed cb st))"
    by (rule assms[of _ "length (heap st)"]) (simp_all add: armed_def)
  with None show ?thesis
    by (simp add: newObserver_armed andThen_def) (simp add: armed_def)
qed

lemma setup_then_prefix:
  assumes "\<And>st1. heap st1 = heap st \<Longrightarrow> take (length (heap st)) (heap (snd (G st1))) = heap st"
  shows "take (length (heap st)) (heap (snd (andThen (reconfigure r b a st) G))) = heap st"
proof -
  obtain e st1 where c: "reconfigure r b a st = (e, st1)" by force
  then have h: "heap st1 = heap st"
    using reconfigure_frame(1)[of r b a st] by simp
  show ?thesis
    using assms[OF h] h by (cases e) (simp_all add: c andThen_def)
qed

lemma loadImage_prefix:
  "take (length (heap st)) (heap (snd (loadImage H s t a i r b a' st))) = heap st"
proof -
  have "take (length (heap st)) (heap (snd (
         andThen (reconfigure r1 b1 a1 st) (\<lambda>st1.
         andThen (newObserver H cb st1) (loadImage_payloads H sel im))))) = heap st" for r1 b1 a1 cb sel im
  proof (rule setup_then_prefix)
    fix st1 :: "'a state" assume h: "heap st1 = heap st"
    have "take (length (heap st1)) (heap (snd (andThen (newObserver H cb st1) (loadImage_payloads H sel im)))) = heap st1"
      by (rule arm_then_prefix) (rule loadImage_payloads_prefix)
    with h show "take (length (heap st)) (heap (snd (andThen (newObserver H cb st1) (loadImage_payloads H sel im)))) = heap st"
      by simp
  qed
  then show ?thesis
    unfolding loadImage_def Let_def
    by (simp split: jsval.splits sum.splits bool.splits)
qed

lemma loadVideo_payloads_prefix:
  "observer st2 = Some n \<Longrightarrow> k \<le> n \<Longrightarrow>
     take k (heap (snd (loadVideo_payloads H sel videos st2))) = take k (heap st2)"
  by (auto simp: loadVideo_payloads_def observeEach_prefix
           split: sum.splits jsval.splits prod.splits option.splits)

lemma loadVideo_prefix:
  "take (length (heap st)) (heap (snd (loadVideo H s t a i r b a' st))) = heap st"
proof -
  have "take (length (heap st)) (heap (snd (
         andThen (reconfigure r1 b1 a1 st) (\<lambda>st1.
         andThen (newObserver H cb st1) (loadVideo_payloads H sel im))))) = heap st" for r1 b1 a1 cb sel im
  proof (rule setup_then_prefix)
    fix st1 :: "'a state" assume h: "heap st1 = heap st"
    have "take (length (heap st1)) (heap (snd (andThen (newObserver H cb st1) (loadVideo_payloads H sel im)))) = heap st1"
      by (rule arm_then_prefix) (rule loadVideo_payloads_prefix)
    with h show "take (length (heap st)) (heap (snd (andThen (newObserver H cb st1) (loadVideo_payloads H sel im)))) = heap st"
      by simp
  qed
  then show ?thesis
    unfolding loadVideo_def Let_def
    by (simp split: jsval.splits sum.splits bool.splits)
qed

lemma executeFn_prefix:
  "take (length (heap st)) (heap (snd (executeFn H s f r b a st))) = heap st"
proof -
  have fin: "take k (heap (snd (case querySelector H (dom st2) sel of
                  Inl err \<Rightarrow> (Some err, st2)
                | Inr None \<Rightarrow> (Some NotAnElement, st2)
                | Inr (Some element) \<Rightarrow>
                    (case observer st2 of
                       None \<Rightarrow> (Some NullDereference, st2)
                     | Some i \<Rightarrow> (None, st2\<lparr>heap := observe i element (heap st2)\<rparr>))))) = take k (heap st2)"
    if "observer st2 = Some n" "k \<le> n" for st2 :: "'a state" and n k sel
    using that by (simp add: take_observe split: sum.splits option.splits)
  have "take (length (heap st)) (heap (snd (
         andThen (reconfigure r1 b1 a1 st) (\<lambda>st1.
         andThen (newObserver H cb st1) (\<lambda>st2.
               (case querySelector H (dom st2) sel of
                  Inl err \<Rightarrow> (Some err, st2)
                | Inr None \<Rightarrow> (Some NotAnElement, st2)
                | Inr (Some element) \<Rightarrow>
                    (case observer st2 of
                       None \<Rightarrow> (Some NullDereference, st2)
                     | Some i \<Rightarrow> (None, st2\<lparr>heap := observe i element (heap st2)\<rparr>)))))))) = heap st"
    for r1 b1 a1 cb sel
  proof (rule setup_then_prefix)
    fix st1 :: "'a state" assume h: "heap st1 = heap st"
    have "take (length (heap st1)) (heap (snd (andThen (newObserver H cb st1) (\<lambda>st2.
               (case querySelector H (dom st2) sel of
                  Inl err \<Rightarrow> (Some err, st2)
                | Inr None \<Rightarrow> (Some NotAnElement, st2)
                | Inr (Some element) \<Rightarrow>
                    (case observer st2 of
                       None \<Rightarrow> (Some NullDereference, st2)
                     | Some i \<Rightarrow> (None, st2\<lparr>heap := observe i element (heap st2)\<rparr>))))))) = heap st1"
      by (rule arm_then_prefix) (rule fin)
    with h show "take (length (heap st)) (heap (snd (andThen (newObserver H cb st1) (\<lambda>st2.
               (case querySelector H (dom st2) sel of
                  Inl err \<Rightarrow> (Some err, st2)
                | Inr None \<Rightarrow> (Some NotAnElement, st2)
                | Inr (Some element) \<Rightarrow>
                    (case observer st2 of
                       None \<Rightarrow> (Some NullDereference, st2)
                     | Some i \<Rightarrow> (None, st2\<lparr>heap := observe i element (heap st2)\<rparr>))))))) = heap st"
      by simp
  qed
  then show ?thesis
    unfolding executeFn_def Let_def
    by (simp split: jsval.splits sum.splits bool.splits)
qed

lemma forEach_shrinks:
  assumes "\<And>x s. shrinks (heap s) (heap (snd (f x s)))"
  shows "shrinks (heap s) (heap (snd (forEach f xs s)))"
proof (induction xs arbitrary: s)
  case Nil
  show ?case by simp
next
  case (Cons x xs)
  obtain e s1 where f: "f x s = (e, s1)" by force
  with assms[of s x] have 1: "shrinks (heap s) (heap s1)" by simp
  show ?case
  proof (cases e)
    case None
    with f Cons.IH[of s1] 1 show ?thesis
      by (auto intro: shrinks_trans)
  next
    case (Some err)
    with f 1 show ?thesis by simp
  qed
qed

lemma renderImage_entry_shrinks:
  "shrinks (heap s) (heap (snd (renderImage_entry H t a obs x s)))"
  by (simp add: renderImage_entry_def Let_def split: sum.splits option.splits)

lemma renderVideo_entry_shrinks:
  "shrinks (heap s) (heap (snd (renderVideo_entry H t a obs x s)))"
  by (simp add: renderVideo_entry_def Let_def split: sum.splits option.splits)

lemma handleFunctionExecution_entry_shrinks:
  "shrinks (heap s) (heap (snd (handleFunctionExecution_entry f obs x s)))"
  by (simp add: handleFunctionExecution_entry_def split: prod.splits option.splits)

lemma invoke_shrinks: "shrinks (heap s) (heap (snd (invoke H cb es obs s)))"
  by (cases cb)
     (simp_all add: renderImage_def renderVideo_def handleFunctionExecution_def forEach_shrinks
        renderImage_entry_shrinks renderVideo_entry_shrinks handleFunctionExecution_entry_shrinks)

lemma notify_shrinks: "shrinks (heap s) (heap (snd (notify H obs changes s)))"
  by (simp add: notify_def Let_def invoke_shrinks)

lemma step_shrinks: "shrinks (heap st) (heap (step H act st))"
proof (cases act)
  case (Config r b a)
  then show ?thesis by (simp add: config_frame)
next
  case (LoadImage s t a i r b a')
  then show ?thesis by (simp add: shrinks_prefix loadImage_prefix)
next
  case (LoadVideo s t a i r b a')
  then show ?thesis by (simp add: shrinks_prefix loadVideo_prefix)
next
  case (ExecuteFn s f r b a)
  then show ?thesis by (simp add: shrinks_prefix executeFn_prefix)
next
  case Destroy
  then show ?thesis
    by (simp add: destroy_def config_default split: option.splits)
next
  case (Notify obs changes)
  then show ?thesis by (simp add: notify_shrinks)
next
  case (Mutate g)
  then show ?thesis by simp
qed

lemma run_shrinks: "shrinks (heap st) (heap (run H acts st))"
  unfolding run_def
proof (induction acts arbitrary: st)
  case Nil
  show ?case by simp
next
  case (Cons act acts)
  show ?case
    using step_shrinks[of st H act] Cons.IH[of "step H act st"]
    by (auto intro: shrinks_trans)
qed

lemma shrinks_not_tracked:
  "shrinks h h' \<Longrightarrow> obs < length h \<Longrightarrow> x \<notin> set (targets (h ! obs)) \<Longrightarrow>
     obs < length h' \<and> x \<notin> set (targets (h' ! obs))"
  by (auto simp: shrinks_def)

lemma forEach_removes:
  assumes A: "\<And>x s. shrinks (heap s) (heap (snd (f x s)))"
      and B: "\<And>x s s'. f x s = (None, s') \<Longrightarrow> obs < length (heap s) \<Longrightarrow> isIntersecting x \<Longrightarrow>
                 target x \<notin> set (targets (heap s' ! obs))"
  shows "forEach f es s = (None, s') \<Longrightarrow> obs < length (heap s) \<Longrightarrow> e \<in> set es \<Longrightarrow>
           isIntersecting e \<Longrightarrow> target e \<notin> set (targets (heap s' ! obs))"
proof (induction es arbitrary: s)
  case Nil
  then show ?case by simp
next
  case (Cons x xs)
  obtain r s1 where f: "f x s = (r, s1)" by force
  with Cons.prems(1) have r: "r = None" and rest: "forEach f xs s1 = (None, s')"
    by (cases r; simp)+
  from A[of s x] f have sh: "shrinks (heap s) (heap s1)" by simp
  with Cons.prems(2) have o1: "obs < length (heap s1)"
    by (simp add: shrinks_def)
  show ?case
  proof (cases "e = x")
    case True
    with B[of x s s1] f r Cons.prems have "target e \<notin> set (targets (heap s1 ! obs))"
      by simp
    moreover from forEach_shrinks[of f s1 xs, OF A] rest have "shrinks (heap s1) (heap s')"
      by simp
    ultimately show ?thesis
      using shrinks_not_tracked o1 by blast
  next
    case False
    with Cons.prems(3) have "e \<in> set xs" by simp
    from Cons.IH[OF rest o1 this Cons.prems(4)] show ?thesis .
  qed
qed

lemma not_in_unobserve:
  "obs < length h \<Longrightarrow> x \<notin> set (targets (unobserve obs x h ! obs))"
  by (simp add: unobserve_def)

lemma renderImage_entry_removes:
  "renderImage_entry H t a obs x s = (None, s') \<Longrightarrow> obs < length (heap s) \<Longrightarrow> isIntersecting x \<Longrightarrow>
     target x \<notin> set (targets (heap s' ! obs))"
  by (auto simp: renderImage_entry_def Let_def not_in_unobserve split: sum.splits option.splits)

lemma renderVideo_entry_removes:
  "renderVideo_entry H t a obs x s = (None, s') \<Longrightarrow> obs < length (heap s) \<Longrightarrow> isIntersecting x \<Longrightarrow>
     target x \<notin> set (targets (heap s' ! obs))"
  by (auto simp: renderVideo_entry_def Let_def not_in_unobserve split: sum.splits option.splits)

lemma handleFunctionExecution_entry_removes:
  "handleFunctionExecution_entry f obs x s = (None, s') \<Longrightarrow> obs < length (heap s) \<Longrightarrow>
     isIntersecting x \<Longrightarrow> target x \<notin> set (targets (heap s' ! obs))"
  by (auto simp: handleFunctionExecution_entry_def not_in_unobserve split: prod.splits option.splits)

lemma invoke_removes:
  assumes "invoke H cb es obs s = (None, s')" "obs < length (heap s)" "e \<in> set es" "isIntersecting e"
  shows "target e \<notin> set (targets (heap s' ! obs))"
proof (cases cb)
  case (RenderImage t a)
  with assms(1) have "forEach (renderImage_entry H t a obs) es s = (None, s')"
    by (simp add: renderImage_def)
  from forEach_removes[of "renderImage_entry H t a obs" obs es s s' e,
        OF renderImage_entry_shrinks renderImage_entry_removes this assms(2-4)]
  show ?thesis .
next
  case (RenderVideo t a)
  with assms(1) have "forEach (renderVideo_entry H t a obs) es s = (None, s')"
    by (simp add: renderVideo_def)
  from forEach_removes[of "renderVideo_entry H t a obs" obs es s s' e,
        OF renderVideo_entry_shrinks renderVideo_entry_removes this assms(2-4)]
  show ?thesis .
next
  case (HandleFunctionExecution f)
  with assms(1) have "forEach (handleFunctionExecution_entry f obs) es s = (None, s')"
    by (simp add: handleFunctionExecution_def)
  from forEach_removes[of "handleFunctionExecution_entry f obs" obs es s s' e,
        OF handleFunctionExecution_entry_shrinks handleFunctionExecution_entry_removes this assms(2-4)]
  show ?thesis .
qed

lemma notify_ignores:
  assumes "x \<notin> set (targets (heap st ! obs))"
  shows "notify H obs changes st = notify H obs (filter (\<lambda>c. target c \<noteq> x) changes) st"
proof -
  have "filter (\<lambda>c. target c \<in> set (targets (heap st ! obs))) (filter (\<lambda>c. target c \<noteq> x) changes)
        = filter (\<lambda>c. target c \<in> set (targets (heap st ! obs))) changes"
    using assms by (auto intro: filter_cong)
  then show ?thesis
    by (simp add: notify_def Let_def)
qed

lemma never_again:
  assumes "obs < length (heap st1)" "x \<notin> set (targets (heap st1 ! obs))"
  shows "obs < length (heap (run H acts st1))
       \<and> x \<notin> set (targets (heap (run H acts st1) ! obs))
       \<and> notify H obs changes (run H acts st1) =
           notify H obs (filter (\<lambda>c. target c \<noteq> x) changes) (run H acts st1)"
proof -
  from shrinks_not_tracked[OF run_shrinks assms, of H acts]
  have "obs < length (heap (run H acts st1)) \<and> x \<notin> set (targets (heap (run H acts st1) ! obs))" .
  then show ?thesis
    using notify_ignores[of x "run H acts st1" obs H changes] by simp
qed

lemma ctaCounting_eq:
  "ctaCounting = fresh\<lparr>observer := Some 0,
       heap := [\<lparr>callback = HandleFunctionExecution counting, init = Some defaults, targets = [2]\<rparr>]\<rparr>"
  by (simp add: ctaCounting_def executeFn_def fresh_eq checkValidCSSSelector_def querySelector_def
        reconfigure_def andThen_def newObserver_def observe_def)

lemma ctaFailing_eq:
  "ctaFailing = fresh\<lparr>observer := Some 0,
       heap := [\<lparr>callback = HandleFunctionExecution failing, init = Some defaults, targets = [2]\<rparr>]\<rparr>"
  by (simp add: ctaFailing_def executeFn_def fresh_eq checkValidCSSSelector_def querySelector_def
        reconfigure_def andThen_def newObserver_def observe_def)

lemma ctaFailingSeen_eq:
  "notify page 0 [visible 2] ctaFailing = (Some (HostError 0), ctaFailingSeen)"
  "ctaFailingSeen = ctaFailing\<lparr>user := 1\<rparr>"
  by (simp_all add: ctaFailingSeen_def ctaFailing_eq fresh_eq notify_def visible_def
        handleFunctionExecution_def handleFunctionExecution_entry_def failing_def)

subsection \<open>The reveal callbacks, entry by entry\<close>

text \<open>
  A callback works through its entries in order, so a batch can be cut at any entry; and
  the block that writes a path does what section 4.2 of the specification describes,
  unless the selector or the attribute name is refused by the host or \<open>srcTarget\<close> matches
  nothing inside the element.
\<close>

lemma forEach_append:
  "forEach f (xs @ ys) s =
     (case forEach f xs s of (Some err, s1) \<Rightarrow> (Some err, s1) | (None, s1) \<Rightarrow> forEach f ys s1)"
  by (induction xs arbitrary: s) (auto split: prod.splits option.splits)

lemma invoke_append:
  "invoke H cb (xs @ ys) obs s =
     (case invoke H cb xs obs s of (Some err, s1) \<Rightarrow> (Some err, s1) | (None, s1) \<Rightarrow> invoke H cb ys obs s1)"
  by (cases cb)
     (simp_all add: renderImage_def renderVideo_def handleFunctionExecution_def forEach_append
        split: prod.splits option.splits)

lemma invoke_Nil [simp]: "invoke H cb [] obs s = (None, s)"
  by (cases cb) (simp_all add: renderImage_def renderVideo_def handleFunctionExecution_def)



lemma writeSource_spec:
  "writeSource H t a x p d =
     (if (\<exists>s. t = Some s \<and> s \<noteq> [] \<and> \<not> selectorValid H s) then Inl DomSyntaxError
      else case specTarget H d t x of
             None \<Rightarrow> Inl NullDereference
           | Some y \<Rightarrow>
               if (\<exists>k. a = Some k \<and> k \<noteq> [] \<and> \<not> attrNameValid H k) then Inl DomInvalidCharacter
               else Inr (specWrite H a y p d))"
  by (auto simp: writeSource_def writePath_def orNull_def specTarget_def specWrite_def
        elemQuerySelector_def setAttribute_def split: option.splits)



lemma renderImage_entry_returns:
  assumes "isIntersecting e" and "renderImage_entry H t a obs e s0 = (None, s1)"
  shows "heap s1 = unobserve obs (target e) (heap s0)"
    and "observer s1 = observer s0 \<and> options s1 = options s0 \<and> user s1 = user s0"
    and "case attrs (dom s0) (target e) imageUrl of
           None \<Rightarrow> dom s1 = dom s0
         | Some p \<Rightarrow>
             if p = [] then dom s1 = dom s0
             else \<exists>y. specTarget H (dom s0) t (target e) = Some y
                      \<and> dom s1 = specWrite H a y p (dom s0)"
  using assms
  by (auto simp: renderImage_entry_def Let_def orNull_def writeSource_spec
           split: option.splits if_splits sum.splits)

lemma renderVideo_entry_returns:
  assumes "isIntersecting e" and "renderVideo_entry H t a obs e s0 = (None, s1)"
  shows "heap s1 = unobserve obs (target e) (heap s0)"
    and "observer s1 = observer s0 \<and> options s1 = options s0 \<and> user s1 = user s0"
    and "case attrs (dom s0) (target e) videoUrl of
           None \<Rightarrow> dom s1 = dom s0
         | Some p \<Rightarrow>
             if p = [] then dom s1 = dom s0
             else \<exists>y. specTarget H (dom s0) t (target e) = Some y
                      \<and> dom s1 = specWrite H a y p (dom s0)"
  using assms
  by (auto simp: renderVideo_entry_def Let_def orNull_def writeSource_spec
           split: option.splits if_splits sum.splits)

lemma handleFunctionExecution_entry_returns:
  assumes "isIntersecting e" and "handleFunctionExecution_entry f obs e s0 = (None, s1)"
  shows "heap s1 = unobserve obs (target e) (heap s0)"
    and "observer s1 = observer s0 \<and> options s1 = options s0 \<and> dom s1 = dom s0"
    and "f (user s0) = (None, user s1)"
  using assms
  by (auto simp: handleFunctionExecution_entry_def split: prod.splits option.splits)

lemma invoke_single_returns:
  assumes "isIntersecting e" and "invoke H cb [e] obs s0 = (None, s1)"
  shows "heap s1 = unobserve obs (target e) (heap s0) \<and> observer s1 = observer s0
       \<and> options s1 = options s0
       \<and> (case cb of
            HandleFunctionExecution f \<Rightarrow> f (user s0) = (None, user s1) \<and> dom s1 = dom s0
          | RenderImage t a \<Rightarrow>
              user s1 = user s0
              \<and> (case attrs (dom s0) (target e) imageUrl of
                    None \<Rightarrow> dom s1 = dom s0
                  | Some p \<Rightarrow>
                      if p = [] then dom s1 = dom s0
                      else \<exists>y. specTarget H (dom s0) t (target e) = Some y
                               \<and> dom s1 = specWrite H a y p (dom s0))
          | RenderVideo t a \<Rightarrow>
              user s1 = user s0
              \<and> (case attrs (dom s0) (target e) videoUrl of
                    None \<Rightarrow> dom s1 = dom s0
                  | Some p \<Rightarrow>
                      if p = [] then dom s1 = dom s0
                      else \<exists>y. specTarget H (dom s0) t (target e) = Some y
                               \<and> dom s1 = specWrite H a y p (dom s0)))"
proof (cases cb)
  case (RenderImage t a)
  with assms(2) have "renderImage_entry H t a obs e s0 = (None, s1)"
    by (simp add: renderImage_def split: prod.splits option.splits)
  from renderImage_entry_returns[OF assms(1) this] RenderImage show ?thesis
    by simp
next
  case (RenderVideo t a)
  with assms(2) have "renderVideo_entry H t a obs e s0 = (None, s1)"
    by (simp add: renderVideo_def split: prod.splits option.splits)
  from renderVideo_entry_returns[OF assms(1) this] RenderVideo show ?thesis
    by simp
next
  case (HandleFunctionExecution f)
  with assms(2) have "handleFunctionExecution_entry f obs e s0 = (None, s1)"
    by (simp add: handleFunctionExecution_def split: prod.splits option.splits)
  from handleFunctionExecution_entry_returns[OF assms(1) this] HandleFunctionExecution show ?thesis
    by simp
qed






lemma reported_Nil [simp]: "\<not> reported [] x"
  by (simp add: reported_def)


text \<open>The states of the small page.\<close>

lemma watchingVideo_eq:
  "watchingVideo = fresh\<lparr>observer := Some 0,
       heap := [\<lparr>callback = RenderVideo None None, init = Some defaults, targets = [0, 1]\<rparr>]\<rparr>"
  by (simp add: watchingVideo_def loadVideo_def fresh_eq checkValidCSSSelector_def querySelector_def
        querySelectorAll_def reconfigure_def andThen_def newObserver_def observeEach_def observe_def
        loadVideo_payloads_def checkSrcTarget_def checkAttr_def)

lemma firstSeen_eq:
  "firstSeen = fresh\<lparr>observer := Some 0,
       heap := [\<lparr>callback = RenderImage None None, init = Some defaults, targets = [1]\<rparr>],
       dom := set_src 0 ''a.jpg'' markup\<rparr>"
  by (simp add: firstSeen_def watching_eq fresh_eq notify_def visible_def renderImage_def
        renderImage_entry_def Let_def markup_def imageUrl_def orNull_def writeSource_def writePath_def
        unobserve_def set_src_def)

lemma bothSeen_eq:
  "bothSeen = fresh\<lparr>observer := Some 0,
       heap := [\<lparr>callback = RenderImage None None, init = Some defaults, targets = []\<rparr>],
       dom := set_src 0 ''a.jpg'' markup\<rparr>"
  by (simp add: bothSeen_def firstSeen_eq fresh_eq notify_def visible_def renderImage_def
        renderImage_entry_def Let_def markup_def imageUrl_def orNull_def
        unobserve_def set_src_def)




subsection \<open>The one-shot law\<close>

text \<open>
  Claim C1 says that once an intersecting entry for a subscribed element is processed,
  the element is unobserved and the action never fires again. That fails when the
  action throws: \<open>exeFn()\<close> comes before \<open>observer.unobserve\<close> and nothing catches the
  exception. With a callback that counts its calls and throws, the button is still
  tracked after its first transition (one call), and its second transition calls the
  callback again (two calls). And a callback that returns is called twice when one
  delivery holds two intersecting entries for the button: the loop over the entries
  goes on after the button has been unobserved.
\<close>

theorem throwing_callback_counterexample:
  "targets (heap ctaFailing ! 0) = [2]
   \<and> isIntersecting (visible 2) \<and> target (visible 2) = 2
   \<and> notify page 0 [visible 2] ctaFailing = (Some (HostError 0), ctaFailingSeen)
   \<and> user ctaFailing = 0 \<and> user ctaFailingSeen = 1
   \<and> targets (heap ctaFailingSeen ! 0) = [2]
   \<and> user (snd (notify page 0 [visible 2] ctaFailingSeen)) = 2
   \<and> targets (heap ctaCounting ! 0) = [2] \<and> user ctaCounting = 0
   \<and> fst (notify page 0 [visible 2, visible 2] ctaCounting) = None
   \<and> user (snd (notify page 0 [visible 2, visible 2] ctaCounting)) = 2"
  by (simp add: ctaFailingSeen_eq)
     (simp add: ctaFailing_eq ctaCounting_eq fresh_eq notify_def visible_def counting_def
        handleFunctionExecution_def handleFunctionExecution_entry_def failing_def unobserve_def)

text \<open>
  Claim C1 as amended. Let the host deliver changes to observer \<open>obs\<close>, let \<open>e\<close> be an
  intersecting entry among those handed to the callback, after the entries \<open>pre\<close> and
  before the entries \<open>post\<close>, and let the callback get through \<open>pre\<close> and \<open>e\<close> without throwing.
  Then the reveal action has run for \<open>e\<close> in the state \<open>s0\<close> that \<open>pre\<close> left: \<open>exeFn\<close> was called
  and returned, or the pending path of the element, if it has one that is not empty, was
  written to the write target under \<open>attr\<close> or as \<open>src\<close>. Next the element was unobserved,
  nothing else changed, and the delivery went on with \<open>post\<close>. The element is no longer
  among the observer's targets, and it stays out whatever happens next: after any
  sequence of calls, deliveries and page edits, a delivery to \<open>obs\<close> is the same as the
  delivery without the transitions of that element, so the action does not fire for it
  in any later delivery.
\<close>

theorem one_shot_when_the_action_returns:
  assumes "obs < length (heap st)"
      and "filter (\<lambda>c. target c \<in> set (targets (heap st ! obs))) delivered = pre @ e # post"
      and "isIntersecting e"
      and "invoke H (callback (heap st ! obs)) (pre @ [e]) obs st = (None, s1)"
  shows "\<exists>s0. invoke H (callback (heap st ! obs)) pre obs st = (None, s0)
          \<and> (case callback (heap st ! obs) of
                HandleFunctionExecution f \<Rightarrow> f (user s0) = (None, user s1) \<and> dom s1 = dom s0
              | RenderImage t a \<Rightarrow>
                  user s1 = user s0
                  \<and> (case attrs (dom s0) (target e) imageUrl of
                        None \<Rightarrow> dom s1 = dom s0
                      | Some p \<Rightarrow>
                          if p = [] then dom s1 = dom s0
                          else \<exists>y. specTarget H (dom s0) t (target e) = Some y
                                   \<and> dom s1 = specWrite H a y p (dom s0))
              | RenderVideo t a \<Rightarrow>
                  user s1 = user s0
                  \<and> (case attrs (dom s0) (target e) videoUrl of
                        None \<Rightarrow> dom s1 = dom s0
                      | Some p \<Rightarrow>
                          if p = [] then dom s1 = dom s0
                          else \<exists>y. specTarget H (dom s0) t (target e) = Some y
                                   \<and> dom s1 = specWrite H a y p (dom s0)))
          \<and> heap s1 = unobserve obs (target e) (heap s0)
          \<and> observer s1 = observer s0 \<and> options s1 = options s0
          \<and> target e \<notin> set (targets (heap s1 ! obs))
          \<and> notify H obs delivered st = invoke H (callback (heap st ! obs)) post obs s1
          \<and> (let st1 = run H acts (snd (notify H obs delivered st))
             in obs < length (heap st1)
              \<and> target e \<notin> set (targets (heap st1 ! obs))
              \<and> notify H obs changes st1 =
                  notify H obs (filter (\<lambda>c. target c \<noteq> target e) changes) st1)"
proof -
  let ?cb = "callback (heap st ! obs)"
  obtain r s0 where pre: "invoke H ?cb pre obs st = (r, s0)"
    by force
  with assms(4) have r: "r = None" and one: "invoke H ?cb [e] obs s0 = (None, s1)"
    by (cases r; simp add: invoke_append)+
  note act = invoke_single_returns[OF assms(3) one]
  from invoke_shrinks[of st H ?cb pre obs] pre assms(1) have o0: "obs < length (heap s0)"
    by (simp add: shrinks_def)
  with act have o1: "obs < length (heap s1)" and gone: "target e \<notin> set (targets (heap s1 ! obs))"
    by (simp_all add: unobserve_def)
  have "notify H obs delivered st = invoke H ?cb ((pre @ [e]) @ post) obs st"
    using assms(1,2) by (simp add: notify_def)
  also have "\<dots> = invoke H ?cb post obs s1"
    using assms(4) by (simp only: invoke_append) simp
  finally have del: "notify H obs delivered st = invoke H ?cb post obs s1" .
  from shrinks_not_tracked[OF invoke_shrinks o1 gone, of H ?cb post obs] del
  have "obs < length (heap (snd (notify H obs delivered st)))"
       "target e \<notin> set (targets (heap (snd (notify H obs delivered st)) ! obs))"
    by simp_all
  from never_again[OF this, of H acts changes]
  have later: "let st1 = run H acts (snd (notify H obs delivered st))
             in obs < length (heap st1)
              \<and> target e \<notin> set (targets (heap st1 ! obs))
              \<and> notify H obs changes st1 =
                  notify H obs (filter (\<lambda>c. target c \<noteq> target e) changes) st1"
    by (simp add: Let_def)
  from pre r act gone del later show ?thesis
    by blast
qed

theorem one_shot_witness:
  "0 < length (heap watching)
   \<and> filter (\<lambda>c. target c \<in> set (targets (heap watching ! 0))) [visible 0, visible 2, visible 1]
        = [] @ visible 0 # [visible 1]
   \<and> isIntersecting (visible 0) \<and> target (visible 0) = 0
   \<and> callback (heap watching ! 0) = RenderImage None None
   \<and> invoke page (RenderImage None None) ([] @ [visible 0]) 0 watching = (None, firstSeen)
   \<and> attrs (dom watching) 0 imageUrl = Some ''a.jpg''
   \<and> specTarget page (dom watching) None 0 = Some 0
   \<and> dom firstSeen = specWrite page None 0 ''a.jpg'' (dom watching)
   \<and> src (dom watching) 0 = None \<and> src (dom firstSeen) 0 = Some ''a.jpg''
   \<and> targets (heap watching ! 0) = [0, 1] \<and> targets (heap firstSeen ! 0) = [1]
   \<and> notify page 0 [visible 0, visible 2, visible 1] watching = (None, bothSeen)
   \<and> targets (heap bothSeen ! 0) = []
   \<and> notify page 0 [visible 0] (run page [attachLate] bothSeen) = (None, run page [attachLate] bothSeen)"
proof -
  have facts: "0 < length (heap watching)"
      "filter (\<lambda>c. target c \<in> set (targets (heap watching ! 0))) [visible 0, visible 2, visible 1]
        = [] @ visible 0 # [visible 1]"
      "isIntersecting (visible 0)" "target (visible 0) = 0"
      "callback (heap watching ! 0) = RenderImage None None"
      "attrs (dom watching) 0 imageUrl = Some ''a.jpg''"
      "specTarget page (dom watching) None 0 = Some 0"
      "dom firstSeen = specWrite page None 0 ''a.jpg'' (dom watching)"
      "src (dom watching) 0 = None" "src (dom firstSeen) 0 = Some ''a.jpg''"
      "targets (heap watching ! 0) = [0, 1]" "targets (heap firstSeen ! 0) = [1]"
      "targets (heap bothSeen ! 0) = []"
    by (simp_all add: watching_eq firstSeen_eq bothSeen_eq fresh_eq visible_def markup_def
          imageUrl_def specTarget_def specWrite_def set_src_def)
  have first: "invoke page (callback (heap watching ! 0)) ([] @ [visible 0]) 0 watching = (None, firstSeen)"
    by (simp add: firstSeen_eq watching_eq fresh_eq visible_def renderImage_def
          renderImage_entry_def Let_def markup_def imageUrl_def orNull_def writeSource_def writePath_def
          unobserve_def set_src_def)
  have rest: "invoke page (callback (heap watching ! 0)) [visible 1] 0 firstSeen = (None, bothSeen)"
    by (simp add: firstSeen_eq bothSeen_eq watching_eq fresh_eq visible_def renderImage_def
          renderImage_entry_def Let_def markup_def imageUrl_def orNull_def
          unobserve_def set_src_def)
  have none: "notify page 0 [] s = (None, s)" for s :: "nat state"
    by (simp add: notify_def)
  note claim = one_shot_when_the_action_returns
          [OF facts(1) facts(2) facts(3) first, where acts = "[attachLate]" and changes = "[visible 0]"]
  from claim rest facts(5) have del: "notify page 0 [visible 0, visible 2, visible 1] watching = (None, bothSeen)"
    by simp
  show ?thesis
    using claim[unfolded del] del facts first
    by (simp add: none Let_def)
qed

subsection \<open>Reveal without a payload\<close>



subsection \<open>Fallback to the markup\<close>




subsection \<open>loadVideo against loadImage\<close>

lemma slots_distinct [simp]: "imageUrl \<noteq> videoUrl" "videoUrl \<noteq> imageUrl" "imageUrl \<noteq> []" "videoUrl \<noteq> []"
  by (simp_all add: imageUrl_def videoUrl_def)

lemma swapKey_simps [simp]:
  "swapKey imageUrl = videoUrl" "swapKey videoUrl = imageUrl" "swapKey (swapKey k) = k"
  "swapKey k = [] \<longleftrightarrow> k = []"
  by (auto simp: swapKey_def)

lemma swapKey_eq_iff: "swapKey k' = k \<longleftrightarrow> k' = swapKey k"
  by (auto simp: swapKey_def)

lemma swapError_invol [simp]: "swapError (swapError e) = e"
  by (cases e) simp_all

lemma swapStore_simps [simp]:
  "attrs (swapStore d) e k = attrs d e (swapKey k)"
  "src (swapStore d) = src d"
  "swapStore (swapStore d) = d"
  by (simp_all add: swapStore_def)

lemma swapStore_set_attr: "swapStore (set_attr e k v d) = set_attr e (swapKey k) v (swapStore d)"
  by (rule dom_store.equality) (auto simp: set_attr_def swapStore_def fun_eq_iff swapKey_eq_iff)

lemma swapStore_set_src: "swapStore (set_src e v d) = set_src e v (swapStore d)"
  by (rule dom_store.equality) (auto simp: set_src_def swapStore_def)

lemma swapHost_simps [simp]:
  "selectorValid (swapHost H) = selectorValid H"
  "matchAll (swapHost H) (swapStore d) = matchAll H d"
  "matchWithin (swapHost H) (swapStore d) = matchWithin H d"
  "attrNameValid (swapHost H) = attrNameValid H"
  "storedName (swapHost H) e k = swapKey (storedName H e k)"
  "observerInit (swapHost H) opts = map_option swapError (observerInit H opts)"
  by (simp_all add: swapHost_def)

lemma swapState_simps [simp]:
  "dom (swapState st) = swapStore (dom st)"
  "heap (swapState st) = map swapObserver (heap st)"
  "observer (swapState st) = observer st"
  "options (swapState st) = options st"
  "user (swapState st) = user st"
  by (simp_all add: swapState_def)

lemma swapObserver_simps [simp]:
  "targets (swapObserver ob) = targets ob"
  "callback (swapObserver ob) = swapCallback (callback ob)"
  "init (swapObserver ob) = init ob"
  by (simp_all add: swapObserver_def)

lemma swapOutcome_simps [simp]:
  "swapOutcome (None, st) = (None, swapState st)"
  "swapOutcome (Some err, st) = (Some (swapError err), swapState st)"
  by (simp_all add: swapOutcome_def)

lemma swap_queries [simp]:
  "querySelectorAll (swapHost H) (swapStore d) s = querySelectorAll H d s"
  "querySelector (swapHost H) (swapStore d) s = querySelector H d s"
  "elemQuerySelector (swapHost H) (swapStore d) e s = elemQuerySelector H d e s"
  "checkValidCSSSelector (swapHost H) (swapStore d) s = checkValidCSSSelector H d s"
  "checkSrcTarget (swapHost H) (swapStore d) v = checkSrcTarget H d v"
  by (simp_all add: querySelectorAll_def querySelector_def elemQuerySelector_def
        checkValidCSSSelector_def checkSrcTarget_def split: jsval.splits)

lemma swapState_update:
  "swapState (st\<lparr>options := x\<rparr>) = (swapState st)\<lparr>options := x\<rparr>"
  "swapState (st\<lparr>dom := d\<rparr>) = (swapState st)\<lparr>dom := swapStore d\<rparr>"
  "swapState (st\<lparr>user := w\<rparr>) = (swapState st)\<lparr>user := w\<rparr>"
  "swapState (st\<lparr>heap := h\<rparr>) = (swapState st)\<lparr>heap := map swapObserver h\<rparr>"
  "swapState (st\<lparr>observer := i\<rparr>) = (swapState st)\<lparr>observer := i\<rparr>"
  by (simp_all add: swapState_def)

lemma swap_config: "config r b a (swapState st) = swapOutcome (config r b a st)"
  by (simp add: config_def Let_def swapState_update)

lemma swap_reconfigure: "reconfigure r b a (swapState st) = swapOutcome (reconfigure r b a st)"
  by (simp add: reconfigure_def swap_config)

lemma swap_newObserver:
  "newObserver (swapHost H) (swapCallback cb) (swapState st) = swapOutcome (newObserver H cb st)"
  by (simp add: newObserver_def swapState_update swapObserver_def split: option.splits)

lemma swapObserver_targets:
  "swapObserver (ob\<lparr>targets := t\<rparr>) = (swapObserver ob)\<lparr>targets := t\<rparr>"
  by (simp add: swapObserver_def)

lemma swap_observe: "observe i e (map swapObserver h) = map swapObserver (observe i e h)"
  by (auto simp: observe_def map_update swapObserver_targets)

lemma swap_unobserve: "unobserve i e (map swapObserver h) = map swapObserver (unobserve i e h)"
  by (simp add: unobserve_def map_update swapObserver_targets)

lemma swap_forEach:
  assumes "\<And>x s. g x (swapState s) = swapOutcome (f x s)"
  shows "forEach g xs (swapState s) = swapOutcome (forEach f xs s)"
proof (induction xs arbitrary: s)
  case Nil
  show ?case by simp
next
  case (Cons x xs)
  obtain e s1 where f: "f x s = (e, s1)" by force
  show ?case
    using Cons.IH[of s1] by (cases e) (simp_all add: assms f)
qed

lemma swap_observeEach: "observeEach es (swapState st) = swapOutcome (observeEach es st)"
  unfolding observeEach_def
  by (rule swap_forEach) (simp add: swapState_update swap_observe split: option.splits)

lemma swap_andThen:
  assumes "\<And>s. G (swapState s) = swapOutcome (F s)"
  shows "andThen (swapOutcome r) G = swapOutcome (andThen r F)"
  by (cases r; cases "fst r") (auto simp: andThen_def assms)

lemma swap_assignAll:
  "assignAll videoUrl es ps d = swapStore (assignAll imageUrl es ps (swapStore d))"
proof (induction es ps arbitrary: d rule: list_induct2')
  case (4 e es p ps)
  have "swapStore (set_attr e videoUrl p d) = set_attr e imageUrl p (swapStore d)"
    by (simp add: swapStore_set_attr)
  with 4[of "set_attr e videoUrl p d"] show ?case
    by simp
qed simp_all

lemma swap_loop:
  "loadVideo_loop es vs 0 d =
     (map_option swapError (fst (loadImage_loop es vs 0 (swapStore d))),
      swapStore (snd (loadImage_loop es vs 0 (swapStore d))))"
  by (simp add: loadVideo_loop_closed loadImage_loop_closed Let_def swap_assignAll)

lemma swapCallback_invol [simp]: "swapCallback (swapCallback cb) = cb"
  by (cases cb) simp_all

lemma swapObserver_invol [simp]: "swapObserver (swapObserver ob) = ob"
  by (simp add: swapObserver_def)

lemma swapState_invol [simp]: "swapState (swapState st) = st"
  by (simp add: swapState_def comp_def)

lemma swapOutcome_invol [simp]: "swapOutcome (swapOutcome r) = r"
  by (simp add: swapOutcome_def option.map_comp comp_def option.map_ident)

lemma swap_payloads:
  "loadVideo_payloads H sel vs st = swapOutcome (loadImage_payloads (swapHost H) sel vs (swapState st))"
proof (cases "querySelectorAll H (dom st) sel")
  case (Inl err)
  then have "err = DomSyntaxError"
    by (simp add: querySelectorAll_def split: if_splits)
  with Inl show ?thesis
    by (simp add: loadVideo_payloads_def loadImage_payloads_def)
next
  case (Inr els)
  show ?thesis
  proof (cases "\<exists>arr. vs = JArr arr")
    case False
    then show ?thesis
      by (cases vs) (simp_all add: loadVideo_payloads_def loadImage_payloads_def Inr)
  next
    case True
    then obtain arr where vs: "vs = JArr arr" by blast
    have obs: "observeEach els (st\<lparr>dom := swapStore d\<rparr>)
                 = swapOutcome (observeEach els ((swapState st)\<lparr>dom := d\<rparr>))" for d
    proof -
      have eq: "(swapState st)\<lparr>dom := d\<rparr> = swapState (st\<lparr>dom := swapStore d\<rparr>)"
        by (simp add: swapState_update)
      have "swapOutcome (observeEach els (swapState (st\<lparr>dom := swapStore d\<rparr>)))
              = swapOutcome (swapOutcome (observeEach els (st\<lparr>dom := swapStore d\<rparr>)))"
        by (simp only: swap_observeEach)
      then show ?thesis
        by (simp only: eq swapOutcome_invol)
    qed
    show ?thesis
    proof (cases "arr = []")
      case True
      with obs[of "swapStore (dom st)"] show ?thesis
        by (simp add: loadVideo_payloads_def loadImage_payloads_def Inr vs)
    next
      case False
      obtain e d where l: "loadImage_loop els arr 0 (swapStore (dom st)) = (e, d)" by force
      then have v: "loadVideo_loop els arr 0 (dom st) = (map_option swapError e, swapStore d)"
        by (simp add: swap_loop)
      show ?thesis
        using obs[of d]
        by (cases e) (simp_all add: loadVideo_payloads_def loadImage_payloads_def Inr vs False l v
              swapState_update)
    qed
  qed
qed

lemma swap_tail:
  "andThen (reconfigure r b a (swapState st)) (\<lambda>st1.
     andThen (newObserver (swapHost H) (RenderImage t att) st1)
             (loadImage_payloads (swapHost H) sel vs))
   = swapOutcome (andThen (reconfigure r b a st) (\<lambda>st1.
       andThen (newObserver H (RenderVideo t att) st1) (loadVideo_payloads H sel vs)))"
proof -
  have inner: "andThen (newObserver (swapHost H) (RenderImage t att) (swapState s))
                       (loadImage_payloads (swapHost H) sel vs)
             = swapOutcome (andThen (newObserver H (RenderVideo t att) s) (loadVideo_payloads H sel vs))"
    for s
  proof -
    have "newObserver (swapHost H) (RenderImage t att) (swapState s)
            = swapOutcome (newObserver H (RenderVideo t att) s)"
      using swap_newObserver[of H "RenderVideo t att" s] by simp
    moreover have "loadImage_payloads (swapHost H) sel vs (swapState s')
            = swapOutcome (loadVideo_payloads H sel vs s')" for s'
      by (simp add: swap_payloads)
    ultimately show ?thesis
      by (simp add: swap_andThen)
  qed
  show ?thesis
    by (simp only: swap_reconfigure) (rule swap_andThen, rule inner)
qed

lemma checkAttr_error: "checkAttr v = Inl err \<Longrightarrow> err = AttrError"
  by (cases v) (simp_all add: checkAttr_def)

lemma checkSrcTarget_error: "checkSrcTarget H d v = Inl err \<Longrightarrow> swapError err = err"
  by (cases v)
     (auto simp: checkSrcTarget_def checkValidCSSSelector_def querySelector_def
        split: sum.splits bool.splits if_splits option.splits)

lemma checkValid_error: "checkValidCSSSelector H d s = Inl err \<Longrightarrow> swapError err = err"
  by (auto simp: checkValidCSSSelector_def querySelector_def split: if_splits option.splits)

lemma swap_loadVideo:
  "loadVideo H selector srcTarget attr videos r b a st =
     swapOutcome (loadImage (swapHost H) selector srcTarget attr videos r b a (swapState st))"
proof (cases "dflt JNull selector")
  case (JStr sel)
  show ?thesis
  proof (cases "checkValidCSSSelector H (dom st) sel")
    case (Inl err)
    with checkValid_error[OF Inl] show ?thesis
      by (simp add: loadVideo_def loadImage_def JStr)
  next
    case (Inr ok)
    show ?thesis
    proof (cases ok)
      case False
      with Inr show ?thesis
        by (simp add: loadVideo_def loadImage_def JStr)
    next
      case True
      show ?thesis
      proof (cases "checkSrcTarget H (dom st) (dflt JNull srcTarget)")
        case (Inl err)
        with checkSrcTarget_error[OF Inl] show ?thesis
          by (simp add: loadVideo_def loadImage_def JStr Inr True)
      next
        case t: (Inr t)
        show ?thesis
        proof (cases "checkAttr (dflt JNull attr)")
          case (Inl err)
          with checkAttr_error[OF Inl] show ?thesis
            by (simp add: loadVideo_def loadImage_def JStr Inr True t)
        next
          case att: (Inr att)
          show ?thesis
            by (simp add: loadVideo_def loadImage_def JStr Inr True t att swap_tail)
        qed
      qed
    qed
  qed
qed (simp_all add: loadVideo_def loadImage_def)

lemma swap_writePath:
  "writePath (swapHost H) a x p (swapStore d) =
     (case writePath H a x p d of Inl err \<Rightarrow> Inl err | Inr d' \<Rightarrow> Inr (swapStore d'))"
  by (cases "orNull a")
     (simp_all add: writePath_def setAttribute_def swapStore_set_attr swapStore_set_src)

lemma swap_writeSource:
  "writeSource (swapHost H) t a x p (swapStore d) =
     (case writeSource H t a x p d of Inl err \<Rightarrow> Inl err | Inr d' \<Rightarrow> Inr (swapStore d'))"
  by (simp add: writeSource_def swap_writePath split: option.splits sum.splits)

lemma writeSource_error: "writeSource H t a x p d = Inl err \<Longrightarrow> swapError err = err"
  by (auto simp: writeSource_def writePath_def setAttribute_def elemQuerySelector_def
        split: option.splits sum.splits if_splits)

lemma swap_render_entry:
  "renderVideo_entry H t a obs x s =
     swapOutcome (renderImage_entry (swapHost H) t a obs x (swapState s))"
proof (cases "isIntersecting x")
  case False
  then show ?thesis
    by (simp add: renderVideo_entry_def renderImage_entry_def)
next
  case True
  show ?thesis
  proof (cases "orNull (attrs (dom s) (target x) videoUrl)")
    case None
    with True show ?thesis
      by (simp add: renderVideo_entry_def renderImage_entry_def swapState_update swap_unobserve
            comp_def)
  next
    case (Some p)
    show ?thesis
    proof (cases "writeSource H t a (target x) p (dom s)")
      case (Inl err)
      with True Some writeSource_error[OF Inl] show ?thesis
        by (simp add: renderVideo_entry_def renderImage_entry_def swap_writeSource)
    next
      case (Inr d')
      with True Some show ?thesis
        by (simp add: renderVideo_entry_def renderImage_entry_def swap_writeSource
              swapState_update swap_unobserve comp_def)
    qed
  qed
qed

lemma swap_renderVideo:
  "renderVideo H t a entries obs st =
     swapOutcome (renderImage (swapHost H) t a entries obs (swapState st))"
proof -
  have "forEach (renderImage_entry (swapHost H) t a obs) entries (swapState st)
          = swapOutcome (forEach (renderVideo_entry H t a obs) entries st)"
    by (rule swap_forEach) (simp add: swap_render_entry)
  then show ?thesis
    by (simp add: renderVideo_def renderImage_def)
qed

lemma swapError_class: "error_class_of (swapError err) = error_class_of err"
  by (cases err) simp_all

text \<open>
  On the small page, an HTML page, \<open>setAttribute\<close> stores a name in lower case: the
  video callback created with \<open>attr: "DATA-IMAGE-URL"\<close> writes the pending video path of
  the first element into its pending image slot.
\<close>

lemma upper_case_attr_reaches_the_image_slot:
  "renderVideo page None (Some ''DATA-IMAGE-URL'') [visible 0] 0 watchingVideo =
     (None, watchingVideo\<lparr>dom := set_attr 0 imageUrl ''a.mp4'' (dom watchingVideo),
                           heap := unobserve 0 0 (heap watchingVideo)\<rparr>)"
  by (simp add: renderVideo_def renderVideo_entry_def Let_def visible_def watchingVideo_eq fresh_eq
        markup_def videoUrl_def imageUrl_def orNull_def writeSource_def writePath_def
        setAttribute_def asciiLower_def lowerChar_def)

text \<open>
  Claim C8. \<open>loadVideo\<close> is \<open>loadImage\<close> with the two pending-path slots exchanged: run
  \<open>loadImage\<close>, with the same arguments, on the state and the host in which every mention
  of \<open>data-video-url\<close> has become one of \<open>data-image-url\<close> and the other way round, exchange
  the slots back in the outcome, and the result is what \<open>loadVideo\<close> returns on the
  original input, error or not, for every input and every host, whatever name the host
  stores an attribute under. The same holds for the two reveal callbacks on every batch
  of entries. The errors that differ are the two pairs of messages naming images or
  videos, which belong to the same class. Validation, payload assignment, fallback and
  reveal-then-unobserve are therefore the same up to the slot.
\<close>

theorem loadVideo_is_loadImage_on_the_other_slot:
  "loadVideo H selector srcTarget attr videos r b a st =
     swapOutcome (loadImage (swapHost H) selector srcTarget attr videos r b a (swapState st))
   \<and> renderVideo H t att entries obs st =
     swapOutcome (renderImage (swapHost H) t att entries obs (swapState st))
   \<and> error_class_of (swapError err) = error_class_of err
   \<and> swapState (swapState st) = st \<and> swapKey imageUrl = videoUrl \<and> swapKey videoUrl = imageUrl"
  by (simp add: swap_loadVideo swap_renderVideo swapError_class)

subsection \<open>Selectors that match nothing\<close>

text \<open>
  A selector string the host's parser accepts and that matches no element is reported
  as invalid by the check, and the three batch operations throw the selector error and
  leave the state alone. A string the parser rejects never gets that far: the
  exception of \<open>document.querySelector\<close> leaves \<open>#checkValidCSSSelector\<close> and the
  operation.
\<close>

lemma unmatched_selector_is_rejected:
  assumes "selectorValid H s" and "matchAll H (dom st) s = []"
  shows "checkValidCSSSelector H (dom st) s = Inr False"
    and "loadImage H (JStr s) t a i r b a' st = (Some SelectorRequired, st)"
    and "loadVideo H (JStr s) t a i r b a' st = (Some SelectorRequired, st)"
    and "executeFn H (JStr s) f r b a' st = (Some SelectorRequired, st)"
  using assms
  by (simp_all add: checkValidCSSSelector_def querySelector_def loadImage_def loadVideo_def
        executeFn_def)

lemma invalid_selector_escapes:
  assumes "\<not> selectorValid H s"
  shows "checkValidCSSSelector H (dom st) s = Inl DomSyntaxError"
    and "loadImage H (JStr s) t a i r b a' st = (Some DomSyntaxError, st)"
    and "loadVideo H (JStr s) t a i r b a' st = (Some DomSyntaxError, st)"
    and "executeFn H (JStr s) f r b a' st = (Some DomSyntaxError, st)"
  using assms
  by (simp_all add: checkValidCSSSelector_def querySelector_def loadImage_def loadVideo_def
        executeFn_def)

text \<open>
  Claim C6 says that the validity check reports false, and the operations throw the
  selector error, for a syntactically invalid selector as for an unmatched one. On the
  page whose selector engine rejects \<open>img[\<close>, the check does not return for that string
  and the three operations end with the host's syntax error, which is not the selector
  error of the class; for the unmatched \<open>.missing\<close> the check reports false and
  \<open>loadImage\<close> throws the selector error.
\<close>

theorem rejected_selector_string_throws_from_the_check:
  "\<not> selectorValid page ''img[''
   \<and> checkValidCSSSelector page (dom fresh) ''img['' = Inl DomSyntaxError
   \<and> loadImage page (JStr ''img['') JUndefined JUndefined JUndefined JUndefined JUndefined JUndefined fresh
        = (Some DomSyntaxError, fresh)
   \<and> loadVideo page (JStr ''img['') JUndefined JUndefined JUndefined JUndefined JUndefined JUndefined fresh
        = (Some DomSyntaxError, fresh)
   \<and> executeFn page (JStr ''img['') (JFun counting) JUndefined JUndefined JUndefined fresh
        = (Some DomSyntaxError, fresh)
   \<and> error_class_of DomSyntaxError \<noteq> SelectorError
   \<and> checkValidCSSSelector page (dom fresh) ''.missing'' = Inr False
   \<and> loadImage page (JStr ''.missing'') JUndefined JUndefined JUndefined JUndefined JUndefined JUndefined fresh
        = (Some SelectorRequired, fresh)"
  by (simp add: invalid_selector_escapes unmatched_selector_is_rejected)

end
